theory Spec2Isabelle
  imports Main
begin

section \<open>Decoded payloads\<close>

text \<open>
  The value that \<^verbatim>\<open>JSON.parse\<close> returns. An object keeps its members in document
  order, duplicates included; a number keeps its lexeme, since no function of the service
  reads the value of a number. Strings are byte strings (the UTF-8 form of the text).
\<close>

datatype json =
    JNull
  | JBool bool
  | JNumber string
  | JString string
  | JArray "json list"
  | JObject "(string \<times> json) list"

text \<open>The results of JavaScript's \<^verbatim>\<open>typeof\<close> that a decoded payload can have.\<close>

datatype js_type = TUndefined | TObject | TBoolean | TNumber | TString

text \<open>A read of a property gives \<open>None\<close> for \<^verbatim>\<open>undefined\<close>.\<close>

fun typeof :: "json option \<Rightarrow> js_type" where
  "typeof None = TUndefined"
| "typeof (Some JNull) = TObject"
| "typeof (Some (JBool b)) = TBoolean"
| "typeof (Some (JNumber n)) = TNumber"
| "typeof (Some (JString s)) = TString"
| "typeof (Some (JArray xs)) = TObject"
| "typeof (Some (JObject kvs)) = TObject"

definition is_digit :: "char \<Rightarrow> bool" where
  "is_digit c = (48 \<le> (of_char c :: nat) \<and> (of_char c :: nat) \<le> 57)"

definition digit_val :: "char \<Rightarrow> nat" where
  "digit_val c = of_char c - 48"

definition decimal :: "string \<Rightarrow> nat" where
  "decimal s = foldl (\<lambda>n c. 10 * n + digit_val c) 0 s"

text \<open>
  An array index as a property name: the canonical decimal numeral (no sign, no leading
  zero).
\<close>

definition array_index :: "string \<Rightarrow> nat option" where
  "array_index k =
     (if k \<noteq> [] \<and> list_all is_digit k \<and> (hd k \<noteq> CHR ''0'' \<or> length k = 1)
      then Some (decimal k) else None)"

fun show_nat :: "nat \<Rightarrow> string" where
  "show_nat n =
     (if n < 10 then [char_of (48 + n)] else show_nat (n div 10) @ [char_of (48 + n mod 10)])"

text \<open>
  The read \<^verbatim>\<open>payload[name]\<close> of a decoded payload. An object made by \<^verbatim>\<open>JSON.parse\<close>
  has its members as own properties, the last of two members of one name winning; an
  array has its elements and \<^verbatim>\<open>length\<close>. The properties inherited from
  \<^verbatim>\<open>Object.prototype\<close> and \<^verbatim>\<open>Array.prototype\<close> are functions and accessors under
  names the service never reads (\<^verbatim>\<open>constructor\<close>, \<^verbatim>\<open>toString\<close>, ...), and are left out.
  The service reads a property only behind \<open>isObjectPayload\<close>, so the read of a primitive
  (which throws on \<^verbatim>\<open>null\<close>) is never evaluated; the model gives \<open>None\<close> there.
\<close>

fun get_property :: "json \<Rightarrow> string \<Rightarrow> json option" where
  "get_property (JObject kvs) k = map_of (rev kvs) k"
| "get_property (JArray xs) k =
     (if k = ''length'' then Some (JNumber (show_nat (length xs)))
      else (case array_index k of
              None \<Rightarrow> None
            | Some i \<Rightarrow> if i < length xs then Some (xs ! i) else None))"
| "get_property v k = None"

section \<open>The payload decoder\<close>

text \<open>
  \<^verbatim>\<open>JSON.parse\<close> and \<^verbatim>\<open>Buffer.toString\<close> belong to the runtime, not to the service; this
  is a model of them after ECMA-404 and ECMA-262 (24.5.1). A buffer is its list of bytes.
  A string is kept as the bytes of its UTF-8 form, so \<^verbatim>\<open>toString('utf-8')\<close> leaves the bytes
  as they are; the runtime puts U+FFFD for a malformed sequence, which is text above
  U+007F like the bytes it replaces. The grammar admits such text inside a string literal
  and nowhere else, and the service compares strings with ASCII literals only.
\<close>

definition toString_utf8 :: "string \<Rightarrow> string" where
  "toString_utf8 buffer = buffer"

definition is_ws :: "char \<Rightarrow> bool" where
  "is_ws c = (c = CHR 0x20 \<or> c = CHR 0x09 \<or> c = CHR 0x0A \<or> c = CHR 0x0D)"

definition skip_ws :: "string \<Rightarrow> string" where
  "skip_ws s = dropWhile is_ws s"

definition hex_val :: "char \<Rightarrow> nat option" where
  "hex_val c =
     (let n = (of_char c :: nat) in
      if 48 \<le> n \<and> n \<le> 57 then Some (n - 48)
      else if 65 \<le> n \<and> n \<le> 70 then Some (n - 55)
      else if 97 \<le> n \<and> n \<le> 102 then Some (n - 87)
      else None)"

definition hex4 :: "char \<Rightarrow> char \<Rightarrow> char \<Rightarrow> char \<Rightarrow> nat option" where
  "hex4 a b c d =
     (case (hex_val a, hex_val b, hex_val c, hex_val d) of
        (Some w, Some x, Some y, Some z) \<Rightarrow> Some (4096 * w + 256 * x + 16 * y + z)
      | _ \<Rightarrow> None)"

text \<open>The bytes of one code unit of a \<^verbatim>\<open>\uXXXX\<close> escape, each unit on its own.\<close>

definition utf8_of_unit :: "nat \<Rightarrow> string" where
  "utf8_of_unit n =
     (if n < 128 then [char_of n]
      else if n < 2048 then [char_of (192 + n div 64), char_of (128 + n mod 64)]
      else [char_of (224 + n div 4096), char_of (128 + (n div 64) mod 64),
            char_of (128 + n mod 64)])"

definition simple_escape :: "char \<Rightarrow> char option" where
  "simple_escape e =
     (if e = CHR 0x22 then Some (CHR 0x22)
      else if e = CHR 0x5C then Some (CHR 0x5C)
      else if e = CHR ''/'' then Some (CHR ''/'')
      else if e = CHR ''b'' then Some (CHR 0x08)
      else if e = CHR ''f'' then Some (CHR 0x0C)
      else if e = CHR ''n'' then Some (CHR 0x0A)
      else if e = CHR ''r'' then Some (CHR 0x0D)
      else if e = CHR ''t'' then Some (CHR 0x09)
      else None)"

text \<open>
  The characters of a string literal after its opening quote, up to the closing one:
  the string and the rest of the input.
\<close>

fun parse_chars :: "string \<Rightarrow> (string \<times> string) option" where
  "parse_chars [] = None"
| "parse_chars (c # cs) =
     (if c = CHR 0x22 then Some ([], cs)
      else if c = CHR 0x5C then
        (case cs of
           [] \<Rightarrow> None
         | e # r \<Rightarrow>
             if e = CHR ''u'' then
               (case r of
                  h1 # h2 # h3 # h4 # r' \<Rightarrow>
                    (case hex4 h1 h2 h3 h4 of
                       None \<Rightarrow> None
                     | Some n \<Rightarrow>
                         map_option (\<lambda>(s, t). (utf8_of_unit n @ s, t)) (parse_chars r'))
                | _ \<Rightarrow> None)
             else
               (case simple_escape e of
                  None \<Rightarrow> None
                | Some x \<Rightarrow> map_option (\<lambda>(s, t). (x # s, t)) (parse_chars r)))
      else if (of_char c :: nat) < 32 then None
      else map_option (\<lambda>(s, t). (c # s, t)) (parse_chars cs))"

definition int_part :: "string \<Rightarrow> (string \<times> string) option" where
  "int_part s =
     (case s of
        [] \<Rightarrow> None
      | c # r \<Rightarrow>
          if c = CHR ''0'' then Some ([c], r)
          else if is_digit c then Some (takeWhile is_digit s, dropWhile is_digit s)
          else None)"

definition frac_part :: "string \<Rightarrow> (string \<times> string) option" where
  "frac_part s =
     (case s of
        [] \<Rightarrow> Some ([], s)
      | c # r \<Rightarrow>
          if c = CHR ''.'' then
            (if takeWhile is_digit r = [] then None
             else Some (c # takeWhile is_digit r, dropWhile is_digit r))
          else Some ([], s))"

definition exp_part :: "string \<Rightarrow> (string \<times> string) option" where
  "exp_part s =
     (case s of
        [] \<Rightarrow> Some ([], s)
      | c # r \<Rightarrow>
          if c = CHR ''e'' \<or> c = CHR ''E'' then
            (let (sg, r1) =
                   (case r of
                      [] \<Rightarrow> ([], r)
                    | d # t \<Rightarrow> if d = CHR ''+'' \<or> d = CHR ''-'' then ([d], t) else ([], r))
             in if takeWhile is_digit r1 = [] then None
                else Some (c # sg @ takeWhile is_digit r1, dropWhile is_digit r1))
          else Some ([], s))"

definition parse_number :: "string \<Rightarrow> (string \<times> string) option" where
  "parse_number s =
     (let (sg, s1) =
            (case s of
               [] \<Rightarrow> ([], s)
             | c # r \<Rightarrow> if c = CHR ''-'' then ([c], r) else ([], s))
      in case int_part s1 of
           None \<Rightarrow> None
         | Some (ip, s2) \<Rightarrow>
             (case frac_part s2 of
                None \<Rightarrow> None
              | Some (fp, s3) \<Rightarrow>
                  (case exp_part s3 of
                     None \<Rightarrow> None
                   | Some (ep, s4) \<Rightarrow> Some (sg @ ip @ fp @ ep, s4))))"

definition starts_with :: "string \<Rightarrow> string \<Rightarrow> bool" where
  "starts_with p s = (take (length p) s = p)"

text \<open>
  Recursive descent over the grammar. The first argument bounds the depth of the
  recursion: a call is made at a position of the text, positions never decrease along a
  chain of calls, and a position is visited at most once as a value and once as an element
  or member, so twice the length of the text is never exhausted (lemma \<open>JSON_parse_fuel\<close>
  below).
\<close>

fun parse_value :: "nat \<Rightarrow> string \<Rightarrow> (json \<times> string) option"
  and parse_elements :: "nat \<Rightarrow> json list \<Rightarrow> string \<Rightarrow> (json \<times> string) option"
  and parse_members :: "nat \<Rightarrow> (string \<times> json) list \<Rightarrow> string \<Rightarrow> (json \<times> string) option"
where
  "parse_value 0 s = None"
| "parse_value (Suc n) s =
     (case s of
        [] \<Rightarrow> None
      | c # cs \<Rightarrow>
          if c = CHR ''{'' then
            (case skip_ws cs of
               [] \<Rightarrow> None
             | d # r \<Rightarrow> if d = CHR ''}'' then Some (JObject [], r)
                        else parse_members n [] (d # r))
          else if c = CHR ''['' then
            (case skip_ws cs of
               [] \<Rightarrow> None
             | d # r \<Rightarrow> if d = CHR '']'' then Some (JArray [], r)
                        else parse_elements n [] (d # r))
          else if c = CHR 0x22 then map_option (\<lambda>(x, r). (JString x, r)) (parse_chars cs)
          else if starts_with ''true'' s then Some (JBool True, drop 4 s)
          else if starts_with ''false'' s then Some (JBool False, drop 5 s)
          else if starts_with ''null'' s then Some (JNull, drop 4 s)
          else map_option (\<lambda>(x, r). (JNumber x, r)) (parse_number s))"
| "parse_elements 0 acc s = None"
| "parse_elements (Suc n) acc s =
     (case parse_value n s of
        None \<Rightarrow> None
      | Some (v, r) \<Rightarrow>
          (case skip_ws r of
             [] \<Rightarrow> None
           | d # t \<Rightarrow>
               if d = CHR '','' then parse_elements n (acc @ [v]) (skip_ws t)
               else if d = CHR '']'' then Some (JArray (acc @ [v]), t)
               else None))"
| "parse_members 0 acc s = None"
| "parse_members (Suc n) acc s =
     (case s of
        [] \<Rightarrow> None
      | q # cs \<Rightarrow>
          if q \<noteq> CHR 0x22 then None
          else
            (case parse_chars cs of
               None \<Rightarrow> None
             | Some (k, r) \<Rightarrow>
                 (case skip_ws r of
                    [] \<Rightarrow> None
                  | d # t \<Rightarrow>
                      if d \<noteq> CHR '':'' then None
                      else
                        (case parse_value n (skip_ws t) of
                           None \<Rightarrow> None
                         | Some (v, u) \<Rightarrow>
                             (case skip_ws u of
                                [] \<Rightarrow> None
                              | e # w \<Rightarrow>
                                  if e = CHR '','' then
                                    parse_members n (acc @ [(k, v)]) (skip_ws w)
                                  else if e = CHR ''}'' then
                                    Some (JObject (acc @ [(k, v)]), w)
                                  else None)))))"

text \<open>\<^verbatim>\<open>JSON.parse(text)\<close>: \<open>None\<close> when it throws a \<^verbatim>\<open>SyntaxError\<close>.\<close>

definition JSON_parse :: "string \<Rightarrow> json option" where
  "JSON_parse text =
     (case parse_value (2 * length text + 2) (skip_ws text) of
        None \<Rightarrow> None
      | Some (v, r) \<Rightarrow> if skip_ws r = [] then Some v else None)"

text \<open>
  \<^verbatim>\<open>try { return JSON.parse(buffer.toString('utf-8')) } catch { return null }\<close>: the
  failure and the document \<^verbatim>\<open>null\<close> give the same value.
\<close>

definition parseJsonPayload :: "string \<Rightarrow> json" where
  "parseJsonPayload buffer =
     (case JSON_parse (toString_utf8 buffer) of None \<Rightarrow> JNull | Some v \<Rightarrow> v)"

section \<open>Schema validation\<close>

record UserNotificationEvent =
  notificationId :: string
  requestId :: string
  title :: string
  body :: string
  priority :: string

record NotificationDeliveryAckEvent =
  requestId :: string
  notificationId :: string
  acknowledgedAt :: string
  status :: string
  failureReason :: "string option"

text \<open>\<^verbatim>\<open>typeof value === 'object' && value !== null\<close>\<close>

definition isObjectPayload :: "json \<Rightarrow> bool" where
  "isObjectPayload v = (typeof (Some v) = TObject \<and> v \<noteq> JNull)"

text \<open>The string behind a property whose \<^verbatim>\<open>typeof\<close> is \<^verbatim>\<open>'string'\<close>.\<close>

fun the_string :: "json option \<Rightarrow> string" where
  "the_string (Some (JString s)) = s"
| "the_string v = []"

definition parseUserNotification :: "json \<Rightarrow> UserNotificationEvent option" where
  "parseUserNotification payload =
     (if \<not> isObjectPayload payload then None
      else
        let notificationId = get_property payload ''notificationId'';
            requestId = get_property payload ''requestId'';
            title = get_property payload ''title'';
            body = get_property payload ''body'';
            priority = get_property payload ''priority'';
            validPriority =
              (priority = Some (JString ''LOW'') \<or> priority = Some (JString ''NORMAL'')
               \<or> priority = Some (JString ''HIGH''))
        in
          if typeof notificationId \<noteq> TString \<or> typeof requestId \<noteq> TString
             \<or> typeof title \<noteq> TString \<or> typeof body \<noteq> TString \<or> \<not> validPriority
          then None
          else Some \<lparr>UserNotificationEvent.notificationId = the_string notificationId,
                     UserNotificationEvent.requestId = the_string requestId,
                     title = the_string title,
                     body = the_string body,
                     priority = the_string priority\<rparr>)"

definition parseDeliveryAck :: "json \<Rightarrow> NotificationDeliveryAckEvent option" where
  "parseDeliveryAck payload =
     (if \<not> isObjectPayload payload then None
      else
        let requestId = get_property payload ''requestId'';
            notificationId = get_property payload ''notificationId'';
            acknowledgedAt = get_property payload ''acknowledgedAt'';
            status = get_property payload ''status'';
            failureReason = get_property payload ''failureReason'';
            validStatus =
              (status = Some (JString ''DELIVERED'') \<or> status = Some (JString ''FAILED''))
        in
          if typeof requestId \<noteq> TString \<or> typeof notificationId \<noteq> TString
             \<or> typeof acknowledgedAt \<noteq> TString \<or> \<not> validStatus
          then None
          else if typeof failureReason \<noteq> TUndefined \<and> typeof failureReason \<noteq> TString
          then None
          else Some \<lparr>requestId = the_string requestId,
                     notificationId = the_string notificationId,
                     acknowledgedAt = the_string acknowledgedAt,
                     status = the_string status,
                     failureReason = map_option (\<lambda>v. the_string (Some v)) failureReason\<rparr>)"

section \<open>The counters and the message handler\<close>

text \<open>
  \<^verbatim>\<open>process.env.NAME || 'default'\<close>: an unset or empty variable gives the default.
\<close>

definition env_or :: "string option \<Rightarrow> string \<Rightarrow> string" where
  "env_or v d = (case v of None \<Rightarrow> d | Some s \<Rightarrow> if s = [] then d else s)"

record config =
  userNotificationTopic :: string
  notificationAckTopic :: string

definition config_of_env :: "(string \<Rightarrow> string option) \<Rightarrow> config" where
  "config_of_env env =
     \<lparr>userNotificationTopic = env_or (env ''NOTIFICATION_USER_TOPIC'') ''notification/user'',
      notificationAckTopic = env_or (env ''NOTIFICATION_ACK_TOPIC'') ''notification/ack''\<rparr>"

text \<open>
  The counters are JavaScript numbers, that is IEEE 754 doubles, and only \<^verbatim>\<open>+= 1\<close>
  touches them. A counter holds an integer-valued double and is given here by that
  integer. \<open>increment x\<close> is the Number sum \<^verbatim>\<open>x + 1\<close> of ECMA-262 (6.1.6.1.7), the exact sum
  rounded to the nearest double, ties to the even significand:
  \<^item> from \<open>-2^53\<close> to \<open>2^53 - 1\<close> the sum is a double and the addition is exact;
  \<^item> from \<open>2^53\<close> to \<open>2^54\<close> in magnitude the doubles are the even integers, the sum lies
    midway between \<open>x\<close> and \<open>x + 2\<close>, and the one that is a multiple of 4 has the even
    significand; so at \<open>2^53\<close> the counter stays \<open>2^53\<close>;
  \<^item> beyond \<open>2^54\<close> in magnitude the doubles are at least 4 apart and the sum rounds back
    to \<open>x\<close>.
\<close>

definition increment :: "int \<Rightarrow> int" where
  "increment x =
     (if - (2 ^ 53) \<le> x \<and> x < 2 ^ 53 then x + 1
      else if - (2 ^ 54) \<le> x \<and> x < 2 ^ 54 \<and> x mod 4 = 2 then x + 2
      else x)"

record NotificationStats =
  received :: int
  ackDelivered :: int
  ackFailed :: int

definition notificationStats :: NotificationStats where
  "notificationStats = \<lparr>received = 0, ackDelivered = 0, ackFailed = 0\<rparr>"

text \<open>
  What a message can change: the counters, and the lines written with
  \<^verbatim>\<open>console.error\<close>.
\<close>

record service =
  stats :: NotificationStats
  errors :: "string list"

definition startup :: service where
  "startup = \<lparr>stats = notificationStats, errors = []\<rparr>"

definition console_error :: "string \<Rightarrow> service \<Rightarrow> service" where
  "console_error line sv = sv\<lparr>errors := errors sv @ [line]\<rparr>"

definition non_json_line :: "string \<Rightarrow> string" where
  "non_json_line topic = ''analytics-pipeline received non-JSON MQTT payload on topic '' @ topic"

definition invalid_user_line :: "string \<Rightarrow> string" where
  "invalid_user_line topic =
     ''analytics-pipeline received invalid UserNotification payload on '' @ topic"

definition invalid_ack_line :: "string \<Rightarrow> string" where
  "invalid_ack_line topic =
     ''analytics-pipeline received invalid NotificationDeliveryAck payload on '' @ topic"

text \<open>The callback of \<^verbatim>\<open>client.on('message', ...)\<close> in \<^verbatim>\<open>startNotificationMqttListener\<close>.\<close>

definition on_message :: "config \<Rightarrow> string \<Rightarrow> string \<Rightarrow> service \<Rightarrow> service" where
  "on_message cfg topic payload sv =
     (let parsed = parseJsonPayload payload in
      if parsed = JNull then console_error (non_json_line topic) sv
      else if topic = userNotificationTopic cfg then
        (case parseUserNotification parsed of
           None \<Rightarrow> console_error (invalid_user_line topic) sv
         | Some event \<Rightarrow> sv\<lparr>stats := (stats sv)\<lparr>received := increment (received (stats sv))\<rparr>\<rparr>)
      else if topic = notificationAckTopic cfg then
        (case parseDeliveryAck parsed of
           None \<Rightarrow> console_error (invalid_ack_line topic) sv
         | Some event \<Rightarrow>
             if status event = ''DELIVERED''
             then sv\<lparr>stats := (stats sv)\<lparr>ackDelivered := increment (ackDelivered (stats sv))\<rparr>\<rparr>
             else sv\<lparr>stats := (stats sv)\<lparr>ackFailed := increment (ackFailed (stats sv))\<rparr>\<rparr>)
      else sv)"

text \<open>The messages of a run, each a topic and a payload, handled one after the other.\<close>

definition run :: "config \<Rightarrow> (string \<times> string) list \<Rightarrow> service \<Rightarrow> service" where
  "run cfg msgs sv = foldl (\<lambda>s (topic, payload). on_message cfg topic payload s) sv msgs"

section \<open>Dates\<close>

text \<open>
  The time values of ECMA-262 (21.4.1): milliseconds since the epoch as an integer, with
  the day and year arithmetic of the standard. \<open>DayFromYear\<close> uses the floor division of
  the standard, which is \<open>div\<close> on \<open>int\<close>.
\<close>

definition msPerDay :: int where
  "msPerDay = 86400000"

definition Day :: "int \<Rightarrow> int" where
  "Day t = t div msPerDay"

definition TimeWithinDay :: "int \<Rightarrow> int" where
  "TimeWithinDay t = t mod msPerDay"

definition DaysInYear :: "int \<Rightarrow> int" where
  "DaysInYear y =
     (if y mod 4 \<noteq> 0 then 365 else if y mod 100 \<noteq> 0 then 366
      else if y mod 400 \<noteq> 0 then 365 else 366)"

definition DayFromYear :: "int \<Rightarrow> int" where
  "DayFromYear y =
     365 * (y - 1970) + (y - 1969) div 4 - (y - 1901) div 100 + (y - 1601) div 400"

lemma div_succ:
  fixes a k :: int
  assumes "0 < k"
  shows "(a + 1) div k = a div k + (if (a + 1) mod k = 0 then 1 else 0)"
proof -
  define q r where "q = a div k" and "r = a mod k"
  have a: "a = q * k + r"
    by (simp add: q_def r_def)
  have r: "0 \<le> r" "r < k"
    using assms by (simp_all add: r_def)
  show ?thesis
  proof (cases "r + 1 = k")
    case True
    then have "a + 1 = (q + 1) * k"
      using a by (simp add: algebra_simps)
    then show ?thesis
      using assms by (simp add: q_def)
  next
    case False
    then have lt: "r + 1 < k"
      using r by simp
    have eq: "a + 1 = (r + 1) + q * k"
      using a by simp
    have "(a + 1) div k = q"
      unfolding eq using r lt by (simp add: div_pos_pos_trivial)
    moreover have "(a + 1) mod k = r + 1"
      unfolding eq using r lt by (simp add: mod_pos_pos_trivial)
    ultimately show ?thesis
      using r by (simp add: q_def)
  qed
qed

lemma div4_step: "((y::int) - 1968) div 4 = (y - 1969) div 4 + (if y mod 4 = 0 then 1 else 0)"
proof -
  have "(y - 1968) mod 4 = y mod 4"
    by algebra
  then show ?thesis
    using div_succ [of 4 "y - 1969"] by simp
qed

lemma div100_step:
  "((y::int) - 1900) div 100 = (y - 1901) div 100 + (if y mod 100 = 0 then 1 else 0)"
proof -
  have "(y - 1900) mod 100 = y mod 100"
    by algebra
  then show ?thesis
    using div_succ [of 100 "y - 1901"] by simp
qed

lemma div400_step:
  "((y::int) - 1600) div 400 = (y - 1601) div 400 + (if y mod 400 = 0 then 1 else 0)"
proof -
  have "(y - 1600) mod 400 = y mod 400"
    by algebra
  then show ?thesis
    using div_succ [of 400 "y - 1601"] by simp
qed

lemma mod100_mod4: "(y::int) mod 100 = 0 \<Longrightarrow> y mod 4 = 0"
proof -
  assume "y mod 100 = 0"
  then have "100 dvd y"
    by (simp add: dvd_eq_mod_eq_0)
  moreover have "(4::int) dvd 100"
    by simp
  ultimately have "4 dvd y"
    by (rule dvd_trans [rotated])
  then show ?thesis
    by (simp add: dvd_eq_mod_eq_0)
qed

lemma mod400_mod100: "(y::int) mod 400 = 0 \<Longrightarrow> y mod 100 = 0"
proof -
  assume "y mod 400 = 0"
  then have "400 dvd y"
    by (simp add: dvd_eq_mod_eq_0)
  moreover have "(100::int) dvd 400"
    by simp
  ultimately have "100 dvd y"
    by (rule dvd_trans [rotated])
  then show ?thesis
    by (simp add: dvd_eq_mod_eq_0)
qed

lemma DayFromYear_step: "DayFromYear (y + 1) = DayFromYear y + DaysInYear y"
  using mod100_mod4 [of y] mod400_mod100 [of y]
  by (auto simp add: DayFromYear_def DaysInYear_def div4_step div100_step div400_step)


lemma DaysInYear_pos: "365 \<le> DaysInYear y"
  by (simp add: DaysInYear_def)

text \<open>
  \<open>YearFromTime\<close> is the largest year \<open>y\<close> with \<open>DayFromYear y \<le> Day t\<close>. The search
  goes up from a year that is not too large: a year has at most 366 days after 1970 and at
  least 365 before.
\<close>

function year_search :: "int \<Rightarrow> int \<Rightarrow> int" where
  "year_search d y = (if DayFromYear (y + 1) \<le> d then year_search d (y + 1) else y)"
  by pat_completeness auto
termination
proof (relation "measure (\<lambda>(d, y). nat (d - DayFromYear y))")
  show "wf (measure (\<lambda>(d, y). nat (d - DayFromYear y)))"
    by simp
next
  fix d y :: int
  assume "DayFromYear (y + 1) \<le> d"
  moreover have "DayFromYear y < DayFromYear (y + 1)"
    using DaysInYear_pos [of y] by (simp add: DayFromYear_step)
  ultimately show "((d, y + 1), (d, y)) \<in> measure (\<lambda>(d, y). nat (d - DayFromYear y))"
    by simp
qed

definition YearFromDay :: "int \<Rightarrow> int" where
  "YearFromDay d = year_search d (1970 + (if 0 \<le> d then d div 366 else d div 365))"

definition YearFromTime :: "int \<Rightarrow> int" where
  "YearFromTime t = YearFromDay (Day t)"

definition InLeapYear :: "int \<Rightarrow> int" where
  "InLeapYear t = (if DaysInYear (YearFromTime t) = 366 then 1 else 0)"

definition DayWithinYear :: "int \<Rightarrow> int" where
  "DayWithinYear t = Day t - DayFromYear (YearFromTime t)"

definition MonthFromTime :: "int \<Rightarrow> int" where
  "MonthFromTime t =
     (let d = DayWithinYear t; l = InLeapYear t in
      if d < 31 then 0
      else if d < 59 + l then 1
      else if d < 90 + l then 2
      else if d < 120 + l then 3
      else if d < 151 + l then 4
      else if d < 181 + l then 5
      else if d < 212 + l then 6
      else if d < 243 + l then 7
      else if d < 273 + l then 8
      else if d < 304 + l then 9
      else if d < 334 + l then 10
      else 11)"

definition DateFromTime :: "int \<Rightarrow> int" where
  "DateFromTime t =
     (let d = DayWithinYear t; l = InLeapYear t; m = MonthFromTime t in
      if m = 0 then d + 1
      else if m = 1 then d - 30
      else if m = 2 then d - 58 - l
      else if m = 3 then d - 89 - l
      else if m = 4 then d - 119 - l
      else if m = 5 then d - 150 - l
      else if m = 6 then d - 180 - l
      else if m = 7 then d - 211 - l
      else if m = 8 then d - 242 - l
      else if m = 9 then d - 272 - l
      else if m = 10 then d - 303 - l
      else d - 333 - l)"

text \<open>The day within its year on which month \<open>m\<close> (from 0) starts.\<close>

definition month_start :: "int \<Rightarrow> int \<Rightarrow> int" where
  "month_start l m =
     (if m = 0 then 0
      else if m = 1 then 31
      else if m = 2 then 59 + l
      else if m = 3 then 90 + l
      else if m = 4 then 120 + l
      else if m = 5 then 151 + l
      else if m = 6 then 181 + l
      else if m = 7 then 212 + l
      else if m = 8 then 243 + l
      else if m = 9 then 273 + l
      else if m = 10 then 304 + l
      else 334 + l)"

text \<open>
  \<open>MakeDay\<close>: the day of the first of the month, plus the date less one, whatever the
  date (a date past the end of the month runs into the next one).
\<close>

definition MakeDay :: "int \<Rightarrow> int \<Rightarrow> int \<Rightarrow> int" where
  "MakeDay year month date =
     (let ym = year + month div 12; mn = month mod 12;
          l = (if DaysInYear ym = 366 then 1 else 0)
      in DayFromYear ym + month_start l mn + date - 1)"

definition MakeTime :: "int \<Rightarrow> int \<Rightarrow> int \<Rightarrow> int \<Rightarrow> int" where
  "MakeTime h m s ms = h * 3600000 + m * 60000 + s * 1000 + ms"

definition MakeDate :: "int \<Rightarrow> int \<Rightarrow> int" where
  "MakeDate day time = day * msPerDay + time"

text \<open>\<open>TimeClip\<close>: \<open>None\<close> is \<^verbatim>\<open>NaN\<close>.\<close>

definition TimeClip :: "int \<Rightarrow> int option" where
  "TimeClip t = (if \<bar>t\<bar> > 8640000000000000 then None else Some t)"

text \<open>
  \<^verbatim>\<open>new Date(text).getTime()\<close> for a text of the form \<^verbatim>\<open>YYYY-MM-DDTHH:mm:ss.sssZ\<close>, the
  only form the service builds; \<open>None\<close> is \<^verbatim>\<open>NaN\<close>. As in V8, the runtime of the service,
  the month is 01 to 12 and the day 01 to 31 for every month: 30 February is read as
  2 March, not refused.
\<close>

fun Date_parse :: "string \<Rightarrow> int option" where
  "Date_parse [y1, y2, y3, y4, a, m1, m2, b, d1, d2, t, h1, h2, c, n1, n2, e, s1, s2, f,
               f1, f2, f3, z] =
     (if list_all is_digit [y1, y2, y3, y4, m1, m2, d1, d2, h1, h2, n1, n2, s1, s2, f1, f2, f3]
         \<and> a = CHR ''-'' \<and> b = CHR ''-'' \<and> t = CHR ''T'' \<and> c = CHR '':'' \<and> e = CHR '':''
         \<and> f = CHR ''.'' \<and> z = CHR ''Z''
      then
        (let year = int (decimal [y1, y2, y3, y4]); month = int (decimal [m1, m2]);
             day = int (decimal [d1, d2]); hour = int (decimal [h1, h2]);
             minute = int (decimal [n1, n2]); second = int (decimal [s1, s2]);
             ms = int (decimal [f1, f2, f3])
         in if month < 1 \<or> 12 < month \<or> day < 1 \<or> 31 < day \<or> 24 < hour \<or> 59 < minute
               \<or> 59 < second \<or> (hour = 24 \<and> (minute \<noteq> 0 \<or> second \<noteq> 0 \<or> ms \<noteq> 0))
            then None
            else TimeClip (MakeDate (MakeDay year (month - 1) day)
                                    (MakeTime hour minute second ms)))
      else None)"
| "Date_parse text = None"

definition pad :: "nat \<Rightarrow> nat \<Rightarrow> string" where
  "pad w n = replicate (w - length (show_nat n)) (CHR ''0'') @ show_nat n"

text \<open>\<^verbatim>\<open>Date.prototype.toISOString\<close> of a time value (the caller has excluded \<^verbatim>\<open>NaN\<close>).\<close>

definition toISOString :: "int \<Rightarrow> string" where
  "toISOString t =
     (let y = YearFromTime t; w = TimeWithinDay t;
          year = (if 0 \<le> y \<and> y \<le> 9999 then pad 4 (nat y)
                  else (if y < 0 then ''-'' else ''+'') @ pad 6 (nat \<bar>y\<bar>))
      in year @ ''-'' @ pad 2 (nat (MonthFromTime t + 1)) @ ''-'' @ pad 2 (nat (DateFromTime t))
         @ ''T'' @ pad 2 (nat (w div 3600000)) @ '':'' @ pad 2 (nat (w div 60000 mod 60))
         @ '':'' @ pad 2 (nat (w div 1000 mod 60)) @ ''.'' @ pad 3 (nat (w mod 1000))
         @ ''Z'')"

text \<open>The test of \<^verbatim>\<open>/^\d{4}-\d{2}-\d{2}$/\<close>.\<close>

fun date_pattern :: "string \<Rightarrow> bool" where
  "date_pattern [y1, y2, y3, y4, a, m1, m2, b, d1, d2] =
     (list_all is_digit [y1, y2, y3, y4, m1, m2, d1, d2] \<and> a = CHR ''-'' \<and> b = CHR ''-'')"
| "date_pattern v = False"

text \<open>
  The argument is a string by its type, and at both call sites by a \<^verbatim>\<open>typeof\<close> test, so
  the first test of the source never fails.
\<close>

definition isValidDateString :: "string \<Rightarrow> bool" where
  "isValidDateString v =
     (if \<not> date_pattern v then False
      else
        (case Date_parse (v @ ''T00:00:00.000Z'') of
           None \<Rightarrow> False
         | Some parsed \<Rightarrow> take 10 (toISOString parsed) = v))"

text \<open>The length of month \<open>m\<close> (from 1) of year \<open>y\<close> in the Gregorian calendar.\<close>

definition days_in_month :: "int \<Rightarrow> int \<Rightarrow> int" where
  "days_in_month y m =
     (if m = 2 then (if DaysInYear y = 366 then 29 else 28)
      else if m = 4 \<or> m = 6 \<or> m = 9 \<or> m = 11 then 30 else 31)"

section \<open>The HTTP handlers\<close>

text \<open>A value of \<^verbatim>\<open>req.query\<close>: a string, an array or a nested object.\<close>

datatype query_value =
    QString string
  | QArray "query_value list"
  | QObject "(string \<times> query_value) list"

type_synonym query = "string \<Rightarrow> query_value option"

record response =
  http_status :: nat
  json_body :: json

definition readDateQueryParam :: "query \<Rightarrow> string \<Rightarrow> string option" where
  "readDateQueryParam q name =
     (case q name of
        Some (QString v) \<Rightarrow> if \<not> isValidDateString v then None else Some v
      | _ \<Rightarrow> None)"

text \<open>\<^verbatim>\<open>typeof req.query.name === 'string' ? req.query.name : ''\<close>\<close>

definition string_or_empty :: "query_value option \<Rightarrow> string" where
  "string_or_empty v = (case v of Some (QString s) \<Rightarrow> s | _ \<Rightarrow> [])"

text \<open>\<^verbatim>\<open>!value\<close> of a string or \<^verbatim>\<open>null\<close>.\<close>

definition falsy :: "string option \<Rightarrow> bool" where
  "falsy v = (case v of None \<Rightarrow> True | Some s \<Rightarrow> s = [])"

definition trendIntervals :: "string list" where
  "trendIntervals = [''DAY'', ''WEEK'', ''MONTH'']"

text \<open>\<^verbatim>\<open>a > b\<close> on strings: the first unit that differs decides, a proper prefix is less.\<close>

fun string_gt :: "string \<Rightarrow> string \<Rightarrow> bool" where
  "string_gt [] ys = False"
| "string_gt (x # xs) [] = True"
| "string_gt (x # xs) (y # ys) =
     (if (of_char x :: nat) > of_char y then True
      else if (of_char x :: nat) < of_char y then False
      else string_gt xs ys)"

definition error_body :: "string \<Rightarrow> json" where
  "error_body msg = JObject [(''error'', JString msg)]"

definition daily_summary :: "query \<Rightarrow> response" where
  "daily_summary q =
     (let date = string_or_empty (q ''date'') in
      if \<not> isValidDateString date
      then \<lparr>http_status = 400,
            json_body = error_body ''Invalid or missing date query parameter''\<rparr>
      else \<lparr>http_status = 200,
            json_body = JObject [(''date'', JString date),
                                 (''totalOrders'', JNumber ''125''),
                                 (''grossRevenue'', JNumber ''15675.5''),
                                 (''avgOrderValue'', JNumber ''125.4'')]\<rparr>)"

definition trend :: "query \<Rightarrow> response" where
  "trend q =
     (let from = readDateQueryParam q ''from'';
          to = readDateQueryParam q ''to'';
          interval = string_or_empty (q ''interval'')
      in if falsy from \<or> falsy to \<or> interval \<notin> set trendIntervals
         then \<lparr>http_status = 400, json_body = error_body ''Invalid query parameters''\<rparr>
         else if string_gt (the from) (the to)
         then \<lparr>http_status = 400, json_body = error_body ''Invalid query parameters''\<rparr>
         else \<lparr>http_status = 200,
               json_body = JObject [(''from'', JString (the from)),
                                    (''to'', JString (the to)),
                                    (''interval'', JString interval),
                                    (''points'',
                                     JArray [JObject [(''bucketStart'', JString (the from)),
                                                      (''totalOrders'', JNumber ''120''),
                                                      (''grossRevenue'', JNumber ''15400.25'')]])]\<rparr>)"

definition tier_distribution :: "query \<Rightarrow> response" where
  "tier_distribution q =
     (let date = readDateQueryParam q ''date'' in
      if falsy date
      then \<lparr>http_status = 400, json_body = error_body ''Invalid query parameters''\<rparr>
      else \<lparr>http_status = 200,
            json_body = JObject [(''date'', JString (the date)),
                                 (''tiers'',
                                  JArray [JObject [(''tier'', JString ''STANDARD''),
                                                   (''customers'', JNumber ''950'')],
                                          JObject [(''tier'', JString ''GOLD''),
                                                   (''customers'', JNumber ''320'')],
                                          JObject [(''tier'', JString ''PLATINUM''),
                                                   (''customers'', JNumber ''80'')]])]\<rparr>)"

section \<open>The words of the claims about a query\<close>

text \<open>
  The words of the claims about a query: a date parameter is given and valid when it is
  supplied as one string that passes \<open>isValidDateString\<close>; the interval is given and valid
  when it is supplied as one string that is \<^verbatim>\<open>DAY\<close>, \<^verbatim>\<open>WEEK\<close> or \<^verbatim>\<open>MONTH\<close>.
\<close>

definition date_param_valid :: "query \<Rightarrow> string \<Rightarrow> bool" where
  "date_param_valid q name =
     (case q name of Some (QString d) \<Rightarrow> isValidDateString d | _ \<Rightarrow> False)"

definition interval_param_valid :: "query \<Rightarrow> bool" where
  "interval_param_valid q =
     (case q ''interval'' of
        Some (QString i) \<Rightarrow> i = ''DAY'' \<or> i = ''WEEK'' \<or> i = ''MONTH''
      | _ \<Rightarrow> False)"

fun is_string_value :: "query_value \<Rightarrow> bool" where
  "is_string_value (QString s) = True"
| "is_string_value v = False"

text \<open>The lexicographic order on strings, by the code of the first unit that differs.\<close>

definition unit_less :: "(char \<times> char) set" where
  "unit_less = {(x, y). (of_char x :: nat) < of_char y}"

section \<open>Sample inputs\<close>

definition default_config :: config where
  "default_config = config_of_env (\<lambda>name. None)"

text \<open>Both topic variables set to the same name.\<close>

definition shared_topic_config :: config where
  "shared_topic_config =
     config_of_env ((\<lambda>name. None)(''NOTIFICATION_USER_TOPIC'' \<mapsto> ''events'',
                                   ''NOTIFICATION_ACK_TOPIC'' \<mapsto> ''events''))"

definition user_payload :: string where
  \<open>user_payload =
     ''{"notificationId":"n1","requestId":"r1","title":"t","body":"b","priority":"LOW"}''\<close>

definition user_value :: json where
  "user_value =
     JObject [(''notificationId'', JString ''n1''), (''requestId'', JString ''r1''),
              (''title'', JString ''t''), (''body'', JString ''b''),
              (''priority'', JString ''LOW'')]"

definition user_event :: UserNotificationEvent where
  "user_event =
     \<lparr>UserNotificationEvent.notificationId = ''n1'', UserNotificationEvent.requestId = ''r1'',
      title = ''t'', body = ''b'', priority = ''LOW''\<rparr>"

text \<open>The same event with a sixth member.\<close>

definition user_value_extra :: json where
  "user_value_extra =
     JObject [(''notificationId'', JString ''n1''), (''requestId'', JString ''r1''),
              (''title'', JString ''t''), (''body'', JString ''b''),
              (''priority'', JString ''LOW''), (''channel'', JString ''sms'')]"

text \<open>The same event with its priority in lower case.\<close>

definition user_payload_bad_priority :: string where
  \<open>user_payload_bad_priority =
     ''{"notificationId":"n1","requestId":"r1","title":"t","body":"b","priority":"low"}''\<close>

definition user_value_bad_priority :: json where
  "user_value_bad_priority =
     JObject [(''notificationId'', JString ''n1''), (''requestId'', JString ''r1''),
              (''title'', JString ''t''), (''body'', JString ''b''),
              (''priority'', JString ''low'')]"

definition ack_delivered_payload :: string where
  \<open>ack_delivered_payload =
     ''{"requestId":"r1","notificationId":"n1","acknowledgedAt":"2024-01-01T00:00:00Z","status":"DELIVERED"}''\<close>

definition ack_delivered_value :: json where
  "ack_delivered_value =
     JObject [(''requestId'', JString ''r1''), (''notificationId'', JString ''n1''),
              (''acknowledgedAt'', JString ''2024-01-01T00:00:00Z''),
              (''status'', JString ''DELIVERED'')]"

definition ack_delivered_event :: NotificationDeliveryAckEvent where
  "ack_delivered_event =
     \<lparr>requestId = ''r1'', notificationId = ''n1'', acknowledgedAt = ''2024-01-01T00:00:00Z'',
      status = ''DELIVERED'', failureReason = None\<rparr>"

definition ack_failed_payload :: string where
  \<open>ack_failed_payload =
     ''{"requestId":"r1","notificationId":"n1","acknowledgedAt":"2024-01-01T00:00:00Z","status":"FAILED","failureReason":"timeout"}''\<close>

definition ack_failed_value :: json where
  "ack_failed_value =
     JObject [(''requestId'', JString ''r1''), (''notificationId'', JString ''n1''),
              (''acknowledgedAt'', JString ''2024-01-01T00:00:00Z''),
              (''status'', JString ''FAILED''), (''failureReason'', JString ''timeout'')]"

definition ack_failed_event :: NotificationDeliveryAckEvent where
  "ack_failed_event =
     \<lparr>requestId = ''r1'', notificationId = ''n1'', acknowledgedAt = ''2024-01-01T00:00:00Z'',
      status = ''FAILED'', failureReason = Some ''timeout''\<rparr>"

text \<open>An acknowledgement whose \<^verbatim>\<open>failureReason\<close> is a number.\<close>

definition ack_payload_bad_reason :: string where
  \<open>ack_payload_bad_reason =
     ''{"requestId":"r1","notificationId":"n1","acknowledgedAt":"2024-01-01T00:00:00Z","status":"FAILED","failureReason":7}''\<close>

definition ack_value_bad_reason :: json where
  "ack_value_bad_reason =
     JObject [(''requestId'', JString ''r1''), (''notificationId'', JString ''n1''),
              (''acknowledgedAt'', JString ''2024-01-01T00:00:00Z''),
              (''status'', JString ''FAILED''), (''failureReason'', JNumber ''7'')]"

text \<open>A payload cut off after its first member.\<close>

definition truncated_payload :: string where
  \<open>truncated_payload = ''{"notificationId":"n1",''\<close>

text \<open>Sample queries.\<close>

definition query_date :: "string \<Rightarrow> query" where
  "query_date d = (\<lambda>name. None)(''date'' \<mapsto> QString d)"

definition query_date_twice :: query where
  "query_date_twice =
     (\<lambda>name. None)(''date'' \<mapsto> QArray [QString ''2023-03-15'', QString ''2023-03-16''])"

definition query_trend :: "string \<Rightarrow> string \<Rightarrow> string \<Rightarrow> query" where
  "query_trend f t i =
     (\<lambda>name. None)(''from'' \<mapsto> QString f, ''to'' \<mapsto> QString t, ''interval'' \<mapsto> QString i)"

definition query_trend_from_twice :: query where
  "query_trend_from_twice =
     (\<lambda>name. None)(''from'' \<mapsto> QArray [QString ''2023-03-01'', QString ''2023-03-02''],
                     ''to'' \<mapsto> QString ''2023-03-10'', ''interval'' \<mapsto> QString ''DAY'')"

text \<open>\<open>2^53\<close> copies of the sample notification on the default user-notification topic.\<close>

definition many_notifications :: "(string \<times> string) list" where
  "many_notifications = replicate (2 ^ 53) (''notification/user'', user_payload)"

section \<open>The bound of the decoder\<close>

text \<open>
  Every parser returns a rest shorter than its input, so the bound that \<open>JSON_parse\<close>
  gives to \<open>parse_value\<close> is never used up: a larger bound gives the same result, and
  \<open>None\<close> is a syntax error of the text.
\<close>

lemma skip_ws_length: "length (skip_ws s) \<le> length s"
  by (simp add: skip_ws_def length_dropWhile_le)

lemma parse_chars_shorter: "parse_chars s = Some (x, r) \<Longrightarrow> length r < length s"
proof (induction s arbitrary: x r rule: parse_chars.induct)
  case 1
  then show ?case by simp
next
  case (2 c cs)
  show ?case
    using "2.prems" "2.IH"
    by (fastforce split: if_splits list.splits option.splits)
qed

lemma int_part_shorter: "int_part s = Some (x, r) \<Longrightarrow> length r < length s"
proof (cases s)
  case Nil
  then show "int_part s = Some (x, r) \<Longrightarrow> length r < length s"
    by (simp add: int_part_def)
next
  case (Cons c cs)
  have "length (dropWhile is_digit cs) \<le> length cs"
    by (rule length_dropWhile_le)
  then show "int_part s = Some (x, r) \<Longrightarrow> length r < length s"
    using Cons by (auto simp add: int_part_def split: if_splits)
qed

lemma frac_part_shorter: "frac_part s = Some (x, r) \<Longrightarrow> length r \<le> length s"
proof (cases s)
  case Nil
  then show "frac_part s = Some (x, r) \<Longrightarrow> length r \<le> length s"
    by (simp add: frac_part_def)
next
  case (Cons c cs)
  have "length (dropWhile is_digit cs) \<le> length cs"
    by (rule length_dropWhile_le)
  then show "frac_part s = Some (x, r) \<Longrightarrow> length r \<le> length s"
    using Cons by (auto simp add: frac_part_def split: if_splits)
qed

lemma exp_part_shorter: "exp_part s = Some (x, r) \<Longrightarrow> length r \<le> length s"
proof (cases s)
  case Nil
  then show "exp_part s = Some (x, r) \<Longrightarrow> length r \<le> length s"
    by (simp add: exp_part_def)
next
  case (Cons c cs)
  have a: "length (dropWhile is_digit cs) \<le> length cs"
    by (rule length_dropWhile_le)
  have b: "length (dropWhile is_digit (tl cs)) \<le> length cs"
    using length_dropWhile_le [of is_digit "tl cs"] by simp
  show "exp_part s = Some (x, r) \<Longrightarrow> length r \<le> length s"
    using Cons a b by (auto simp add: exp_part_def Let_def split: if_splits list.splits)
qed

lemma parse_number_shorter: "parse_number s = Some (x, r) \<Longrightarrow> length r < length s"
proof -
  assume p: "parse_number s = Some (x, r)"
  define s1 where "s1 = (case s of [] \<Rightarrow> s | c # t \<Rightarrow> if c = CHR ''-'' then t else s)"
  have s1: "length s1 \<le> length s"
    by (simp add: s1_def split: list.splits)
  from p obtain ip s2 fp s3 ep where i: "int_part s1 = Some (ip, s2)"
    and f: "frac_part s2 = Some (fp, s3)" and e: "exp_part s3 = Some (ep, r)"
    by (auto simp add: parse_number_def s1_def split: list.splits if_splits option.splits)
  show "length r < length s"
    using int_part_shorter [OF i] frac_part_shorter [OF f] exp_part_shorter [OF e] s1
    by simp
qed

lemma rest_shorter:
  "parse_value n s = Some (v, r) \<Longrightarrow> length r < length s"
  "parse_elements n es s = Some (v, r) \<Longrightarrow> length r < length s"
  "parse_members n ms s = Some (v, r) \<Longrightarrow> length r < length s"
proof (induction n s and n es s and n ms s arbitrary: v r and v r and v r
    rule: parse_value_parse_elements_parse_members.induct)
  case (1 s)
  then show ?case by simp
next
  case (2 n s)
  show ?case
  proof (cases s)
    case Nil
    with "2.prems" show ?thesis by simp
  next
    case (Cons c cs)
    note w = skip_ws_length [of cs]
    show ?thesis
    proof (cases "c = CHR ''{''")
      case True
      show ?thesis
      proof (cases "skip_ws cs")
        case Nil
        with "2.prems" Cons True show ?thesis by simp
      next
        case (Cons d t)
        show ?thesis
        proof (cases "d = CHR ''}''")
          case True
          with "2.prems" \<open>s = c # cs\<close> \<open>c = CHR ''{''\<close> Cons w show ?thesis
            by auto
        next
          case False
          with "2.prems" \<open>s = c # cs\<close> \<open>c = CHR ''{''\<close> Cons
          have "parse_members n [] (d # t) = Some (v, r)"
            by simp
          then have "length r < length (d # t)"
            using "2.IH"(1) [OF \<open>s = c # cs\<close> \<open>c = CHR ''{''\<close> Cons False] by simp
          with w Cons \<open>s = c # cs\<close> show ?thesis by simp
        qed
      qed
    next
      case False
      note nb = False
      show ?thesis
      proof (cases "c = CHR ''[''")
        case True
        show ?thesis
        proof (cases "skip_ws cs")
          case Nil
          with "2.prems" Cons True nb show ?thesis by simp
        next
          case (Cons d t)
          show ?thesis
          proof (cases "d = CHR '']''")
            case True
            with "2.prems" \<open>s = c # cs\<close> \<open>c = CHR ''[''\<close> Cons w show ?thesis
              by auto
          next
            case False
            with "2.prems" \<open>s = c # cs\<close> \<open>c = CHR ''[''\<close> Cons
            have "parse_elements n [] (d # t) = Some (v, r)"
              by simp
            then have "length r < length (d # t)"
              using "2.IH"(2) [OF \<open>s = c # cs\<close> nb \<open>c = CHR ''[''\<close> Cons False] by simp
            with w Cons \<open>s = c # cs\<close> show ?thesis by simp
          qed
        qed
      next
        case False
        then show ?thesis
          using "2.prems" Cons nb
          by (auto simp add: starts_with_def split: if_splits
              dest: parse_chars_shorter parse_number_shorter)
      qed
    qed
  qed
next
  case (3 es s)
  then show ?case by simp
next
  case (4 n es s)
  from "4.prems" obtain x u where p: "parse_value n s = Some (x, u)"
    by (auto split: option.splits)
  have u: "length u < length s"
    using "4.IH"(1) [OF p] .
  show ?case
  proof (cases "skip_ws u")
    case Nil
    with "4.prems" p show ?thesis by simp
  next
    case (Cons d t)
    have t: "length t < length u"
      using skip_ws_length [of u] Cons by simp
    show ?thesis
    proof (cases "d = CHR '',''")
      case True
      with "4.prems" p Cons
      have "parse_elements n (es @ [x]) (skip_ws t) = Some (v, r)"
        by simp
      then have "length r < length (skip_ws t)"
        using "4.IH"(2) [OF p refl Cons True] by simp
      with skip_ws_length [of t] t u show ?thesis by simp
    next
      case False
      with "4.prems" p Cons t u show ?thesis
        by (auto split: if_splits)
    qed
  qed
next
  case (5 ms s)
  then show ?case by simp
next
  case (6 n ms s)
  show ?case
  proof (cases s)
    case Nil
    with "6.prems" show ?thesis by simp
  next
    case (Cons q cs)
    from "6.prems" Cons have q: "\<not> q \<noteq> CHR 0x22"
      by (auto split: if_splits)
    from "6.prems" Cons q obtain k u where k: "parse_chars cs = Some (k, u)"
      by (auto split: option.splits)
    have u: "length u < length cs"
      using parse_chars_shorter [OF k] .
    from "6.prems" Cons q k obtain d t where d: "skip_ws u = d # t"
      by (auto split: list.splits)
    from "6.prems" Cons q k d have c: "\<not> d \<noteq> CHR '':''"
      by (auto split: if_splits)
    from "6.prems" Cons q k d c obtain x w where x: "parse_value n (skip_ws t) = Some (x, w)"
      by (auto split: option.splits)
    have w: "length w < length (skip_ws t)"
      using "6.IH"(1) [OF Cons q k refl d c x] .
    from "6.prems" Cons q k d c x obtain e z where e: "skip_ws w = e # z"
      by (auto split: list.splits)
    have chain: "length z < length s"
      using skip_ws_length [of w] skip_ws_length [of t] skip_ws_length [of u] e d w u Cons
      by simp
    show ?thesis
    proof (cases "e = CHR '',''")
      case True
      with "6.prems" Cons q k d c x e
      have "parse_members n (ms @ [(k, x)]) (skip_ws z) = Some (v, r)"
        by simp
      then have "length r < length (skip_ws z)"
        using "6.IH"(2) [OF Cons q k refl d c x refl e True] by simp
      with skip_ws_length [of z] chain show ?thesis by simp
    next
      case False
      with "6.prems" Cons q k d c x e chain show ?thesis
        by (auto split: if_splits)
    qed
  qed
qed

lemma parse_value_fuel_cong:
  assumes "\<And>d t. skip_ws cs = d # t \<Longrightarrow> parse_members a [] (d # t) = parse_members b [] (d # t)"
    and "\<And>d t. skip_ws cs = d # t \<Longrightarrow> parse_elements a [] (d # t) = parse_elements b [] (d # t)"
  shows "parse_value (Suc a) (c # cs) = parse_value (Suc b) (c # cs)"
  using assms by (simp split: list.splits)

lemma parse_elements_fuel_cong:
  assumes "parse_value a s = parse_value b s"
    and "\<And>x u d t. parse_value b s = Some (x, u) \<Longrightarrow> skip_ws u = d # t \<Longrightarrow>
           parse_elements a (es @ [x]) (skip_ws t) = parse_elements b (es @ [x]) (skip_ws t)"
  shows "parse_elements (Suc a) es s = parse_elements (Suc b) es s"
  using assms by (simp split: option.splits list.splits)

lemma parse_members_fuel_cong:
  assumes "\<And>k u d t. parse_chars cs = Some (k, u) \<Longrightarrow> skip_ws u = d # t \<Longrightarrow>
             parse_value a (skip_ws t) = parse_value b (skip_ws t)"
    and "\<And>k u d t x w e z.
           parse_chars cs = Some (k, u) \<Longrightarrow> skip_ws u = d # t \<Longrightarrow>
           parse_value b (skip_ws t) = Some (x, w) \<Longrightarrow> skip_ws w = e # z \<Longrightarrow>
           parse_members a (ms @ [(k, x)]) (skip_ws z) = parse_members b (ms @ [(k, x)]) (skip_ws z)"
  shows "parse_members (Suc a) ms (q # cs) = parse_members (Suc b) ms (q # cs)"
  using assms by (simp split: option.splits list.splits)

lemma fuel_step:
  "(\<forall>s. 2 * length s + 1 \<le> n \<longrightarrow> parse_value (Suc n) s = parse_value n s)
   \<and> (\<forall>es s. 2 * length s + 2 \<le> n \<longrightarrow> parse_elements (Suc n) es s = parse_elements n es s)
   \<and> (\<forall>ms s. 2 * length s + 2 \<le> n \<longrightarrow> parse_members (Suc n) ms s = parse_members n ms s)"
proof (induction n)
  case 0
  show ?case by simp
next
  case (Suc n)
  then have IHv: "\<And>s. 2 * length s + 1 \<le> n \<Longrightarrow> parse_value (Suc n) s = parse_value n s"
    and IHe: "\<And>es s. 2 * length s + 2 \<le> n \<Longrightarrow>
                parse_elements (Suc n) es s = parse_elements n es s"
    and IHm: "\<And>ms s. 2 * length s + 2 \<le> n \<Longrightarrow>
                parse_members (Suc n) ms s = parse_members n ms s"
    by blast+
  have val: "parse_value (Suc (Suc n)) s = parse_value (Suc n) s"
    if b: "2 * length s + 1 \<le> Suc n" for s
  proof (cases s)
    case Nil
    then show ?thesis by simp
  next
    case (Cons c cs)
    have len: "2 * length (d # t) + 2 \<le> n" if "skip_ws cs = d # t" for d t
      using skip_ws_length [of cs] b Cons that by simp
    show ?thesis
      unfolding Cons
    proof (rule parse_value_fuel_cong)
      fix d t
      assume "skip_ws cs = d # t"
      then show "parse_members (Suc n) [] (d # t) = parse_members n [] (d # t)"
        and "parse_elements (Suc n) [] (d # t) = parse_elements n [] (d # t)"
        using len by (simp_all only: IHm IHe)
    qed
  qed
  have els: "parse_elements (Suc (Suc n)) es s = parse_elements (Suc n) es s"
    if b: "2 * length s + 2 \<le> Suc n" for es s
  proof (rule parse_elements_fuel_cong)
    show "parse_value (Suc n) s = parse_value n s"
      using b by (intro IHv) simp
  next
    fix x u d t
    assume p: "parse_value n s = Some (x, u)" and w: "skip_ws u = d # t"
    have "length t < length u"
      using skip_ws_length [of u] w by simp
    then have "2 * length (skip_ws t) + 2 \<le> n"
      using rest_shorter(1) [OF p] skip_ws_length [of t] b by simp
    then show "parse_elements (Suc n) (es @ [x]) (skip_ws t)
                 = parse_elements n (es @ [x]) (skip_ws t)"
      by (rule IHe)
  qed
  have mem: "parse_members (Suc (Suc n)) ms s = parse_members (Suc n) ms s"
    if b: "2 * length s + 2 \<le> Suc n" for ms s
  proof (cases s)
    case Nil
    then show ?thesis by simp
  next
    case (Cons q cs)
    show ?thesis
      unfolding Cons
    proof (rule parse_members_fuel_cong)
      fix k u d t
      assume c: "parse_chars cs = Some (k, u)" and w: "skip_ws u = d # t"
      have "length t < length u"
        using skip_ws_length [of u] w by simp
      then have "2 * length (skip_ws t) + 1 \<le> n"
        using parse_chars_shorter [OF c] skip_ws_length [of t] b Cons by simp
      then show "parse_value (Suc n) (skip_ws t) = parse_value n (skip_ws t)"
        by (rule IHv)
    next
      fix k u d t x w e z
      assume c: "parse_chars cs = Some (k, u)" and w1: "skip_ws u = d # t"
        and p: "parse_value n (skip_ws t) = Some (x, w)" and w2: "skip_ws w = e # z"
      have "length t < length u"
        using skip_ws_length [of u] w1 by simp
      moreover have "length z < length w"
        using skip_ws_length [of w] w2 by simp
      ultimately have "2 * length (skip_ws z) + 2 \<le> n"
        using parse_chars_shorter [OF c] rest_shorter(1) [OF p]
          skip_ws_length [of t] skip_ws_length [of z] b Cons by simp
      then show "parse_members (Suc n) (ms @ [(k, x)]) (skip_ws z)
                   = parse_members n (ms @ [(k, x)]) (skip_ws z)"
        by (rule IHm)
    qed
  qed
  show ?case
    using val els mem by blast
qed

lemma fuel_enough:
  "2 * length s + 1 \<le> n \<Longrightarrow> parse_value (n + k) s = parse_value n s"
proof (induction k)
  case 0
  show ?case by simp
next
  case (Suc k)
  have "parse_value (Suc (n + k)) s = parse_value (n + k) s"
    using fuel_step [of "n + k"] Suc.prems by simp
  with Suc show ?case by simp
qed

text \<open>More fuel than \<open>JSON_parse\<close> gives never changes its result.\<close>

lemma JSON_parse_fuel:
  "JSON_parse s =
     (case parse_value (2 * length s + 2 + k) (skip_ws s) of
        None \<Rightarrow> None
      | Some (v, r) \<Rightarrow> if skip_ws r = [] then Some v else None)"
proof -
  have "2 * length (skip_ws s) + 1 \<le> 2 * length s + 2"
    using skip_ws_length [of s] by simp
  then have "parse_value (2 * length s + 2 + k) (skip_ws s)
               = parse_value (2 * length s + 2) (skip_ws s)"
    by (rule fuel_enough)
  then show ?thesis
    by (simp add: JSON_parse_def)
qed

section \<open>Properties of the validators and of the handler\<close>

lemma typeof_TString: "typeof v = TString \<longleftrightarrow> (\<exists>s. v = Some (JString s))"
  by (cases v rule: typeof.cases) simp_all

lemma parseJsonPayload_JNull:
  "parseJsonPayload b = JNull \<longleftrightarrow>
     JSON_parse (toString_utf8 b) = None \<or> JSON_parse (toString_utf8 b) = Some JNull"
  by (simp add: parseJsonPayload_def split: option.splits)

lemma parseJsonPayload_Some: "JSON_parse (toString_utf8 b) = Some v \<Longrightarrow> parseJsonPayload b = v"
  by (simp add: parseJsonPayload_def)

lemma parseUserNotification_JNull: "parseUserNotification JNull = None"
  by (simp add: parseUserNotification_def isObjectPayload_def)

lemma parseDeliveryAck_JNull: "parseDeliveryAck JNull = None"
  by (simp add: parseDeliveryAck_def isObjectPayload_def)

lemma stats_console_error: "stats (console_error line sv) = stats sv"
  by (simp add: console_error_def)

lemma parseUserNotification_Some:
  "parseUserNotification v = Some e \<longleftrightarrow>
     isObjectPayload v \<and>
     (\<exists>n r t b p.
        get_property v ''notificationId'' = Some (JString n) \<and>
        get_property v ''requestId'' = Some (JString r) \<and>
        get_property v ''title'' = Some (JString t) \<and>
        get_property v ''body'' = Some (JString b) \<and>
        get_property v ''priority'' = Some (JString p) \<and>
        (p = ''LOW'' \<or> p = ''NORMAL'' \<or> p = ''HIGH'') \<and>
        e = \<lparr>UserNotificationEvent.notificationId = n, UserNotificationEvent.requestId = r,
             title = t, body = b, priority = p\<rparr>)"
  unfolding parseUserNotification_def Let_def typeof_TString
  by (auto)

lemma typeof_TUndefined: "typeof v = TUndefined \<longleftrightarrow> v = None"
  by (cases v rule: typeof.cases) simp_all

lemma parseDeliveryAck_Some:
  "parseDeliveryAck v = Some e \<longleftrightarrow>
     isObjectPayload v \<and>
     (\<exists>r n a s.
        get_property v ''requestId'' = Some (JString r) \<and>
        get_property v ''notificationId'' = Some (JString n) \<and>
        get_property v ''acknowledgedAt'' = Some (JString a) \<and>
        get_property v ''status'' = Some (JString s) \<and>
        (s = ''DELIVERED'' \<or> s = ''FAILED'') \<and>
        (get_property v ''failureReason'' = None \<or>
         (\<exists>f. get_property v ''failureReason'' = Some (JString f))) \<and>
        e = \<lparr>requestId = r, notificationId = n, acknowledgedAt = a, status = s,
             failureReason = map_option (\<lambda>x. the_string (Some x))
                               (get_property v ''failureReason'')\<rparr>)"
  unfolding parseDeliveryAck_def Let_def typeof_TString typeof_TUndefined
  by (cases "get_property v ''failureReason''") auto

lemma increment_exact: "\<bar>x\<bar> < 2 ^ 53 \<Longrightarrow> increment x = x + 1"
  by (auto simp add: increment_def)

lemma increment_at_limit: "increment (2 ^ 53) = 2 ^ 53"
  by (simp add: increment_def)

lemma increment_ge: "x \<le> increment x"
  by (simp add: increment_def)

lemma on_message_user:
  assumes "JSON_parse (toString_utf8 payload) = Some v" and "parseUserNotification v = Some e"
    and "topic = userNotificationTopic cfg"
  shows "on_message cfg topic payload sv =
           sv\<lparr>stats := (stats sv)\<lparr>received := increment (received (stats sv))\<rparr>\<rparr>"
proof -
  have "parseJsonPayload payload = v"
    using assms(1) by (rule parseJsonPayload_Some)
  moreover have "v \<noteq> JNull"
    using assms(2) parseUserNotification_JNull by auto
  ultimately show ?thesis
    using assms(2,3) by (simp add: on_message_def)
qed

lemma on_message_ack:
  assumes "JSON_parse (toString_utf8 payload) = Some v" and "parseDeliveryAck v = Some e"
    and "topic = notificationAckTopic cfg"
    and "notificationAckTopic cfg \<noteq> userNotificationTopic cfg"
  shows "on_message cfg topic payload sv =
           (if status e = ''DELIVERED''
            then sv\<lparr>stats := (stats sv)\<lparr>ackDelivered := increment (ackDelivered (stats sv))\<rparr>\<rparr>
            else sv\<lparr>stats := (stats sv)\<lparr>ackFailed := increment (ackFailed (stats sv))\<rparr>\<rparr>)"
proof -
  have "parseJsonPayload payload = v"
    using assms(1) by (rule parseJsonPayload_Some)
  moreover have "v \<noteq> JNull"
    using assms(2) parseDeliveryAck_JNull by auto
  ultimately show ?thesis
    using assms(2,3,4) by (simp add: on_message_def)
qed

lemma on_message_undecodable:
  assumes "JSON_parse (toString_utf8 payload) = None"
  shows "on_message cfg topic payload sv = console_error (non_json_line topic) sv"
  using assms by (simp add: on_message_def parseJsonPayload_def)

lemma on_message_invalid_user:
  assumes "JSON_parse (toString_utf8 payload) = Some v" and "parseUserNotification v = None"
    and "topic = userNotificationTopic cfg"
  shows "on_message cfg topic payload sv =
           console_error (if v = JNull then non_json_line topic else invalid_user_line topic) sv"
  using assms by (simp add: on_message_def parseJsonPayload_def)

lemma on_message_invalid_ack:
  assumes "JSON_parse (toString_utf8 payload) = Some v" and "parseDeliveryAck v = None"
    and "topic = notificationAckTopic cfg" and "topic \<noteq> userNotificationTopic cfg"
  shows "on_message cfg topic payload sv =
           console_error (if v = JNull then non_json_line topic else invalid_ack_line topic) sv"
  using assms by (simp add: on_message_def parseJsonPayload_def)

lemma on_message_received:
  "received (stats (on_message cfg topic payload sv)) = received (stats sv)
   \<or> received (stats (on_message cfg topic payload sv)) = increment (received (stats sv))"
  by (simp add: on_message_def Let_def stats_console_error split: option.splits)

lemma on_message_ackDelivered:
  "ackDelivered (stats (on_message cfg topic payload sv)) = ackDelivered (stats sv)
   \<or> ackDelivered (stats (on_message cfg topic payload sv)) = increment (ackDelivered (stats sv))"
  by (simp add: on_message_def Let_def stats_console_error split: option.splits)

lemma on_message_ackFailed:
  "ackFailed (stats (on_message cfg topic payload sv)) = ackFailed (stats sv)
   \<or> ackFailed (stats (on_message cfg topic payload sv)) = increment (ackFailed (stats sv))"
  by (simp add: on_message_def Let_def stats_console_error split: option.splits)

lemma run_Nil: "run cfg [] sv = sv"
  by (simp add: run_def)

lemma run_Cons: "run cfg ((topic, payload) # msgs) sv = run cfg msgs (on_message cfg topic payload sv)"
  by (simp add: run_def)

lemma run_monotone:
  "received (stats sv) \<le> received (stats (run cfg msgs sv))
   \<and> ackDelivered (stats sv) \<le> ackDelivered (stats (run cfg msgs sv))
   \<and> ackFailed (stats sv) \<le> ackFailed (stats (run cfg msgs sv))"
proof (induction msgs arbitrary: sv)
  case Nil
  show ?case by (simp add: run_Nil)
next
  case (Cons m msgs)
  obtain topic payload where m: "m = (topic, payload)"
    by (cases m)
  let ?sv = "on_message cfg topic payload sv"
  have "received (stats sv) \<le> received (stats ?sv)"
    using on_message_received [of cfg topic payload sv] increment_ge [of "received (stats sv)"]
    by auto
  moreover have "ackDelivered (stats sv) \<le> ackDelivered (stats ?sv)"
    using on_message_ackDelivered [of cfg topic payload sv] increment_ge [of "ackDelivered (stats sv)"]
    by auto
  moreover have "ackFailed (stats sv) \<le> ackFailed (stats ?sv)"
    using on_message_ackFailed [of cfg topic payload sv] increment_ge [of "ackFailed (stats sv)"]
    by auto
  ultimately show ?case
    using Cons.IH [of ?sv] by (auto simp add: m run_Cons)
qed

lemma run_append: "run cfg (xs @ ys) sv = run cfg ys (run cfg xs sv)"
  by (simp add: run_def)

text \<open>
  The first \<open>2^53\<close> valid notifications from startup are all counted, so a counter that
  holds \<open>2^53\<close> is a state the service reaches.
\<close>

lemma run_valid_notifications:
  assumes "JSON_parse (toString_utf8 payload) = Some v" and "parseUserNotification v = Some e"
    and "topic = userNotificationTopic cfg"
  shows "n \<le> 2 ^ 53 \<Longrightarrow>
           stats (run cfg (replicate n (topic, payload)) startup)
             = \<lparr>received = int n, ackDelivered = 0, ackFailed = 0\<rparr>"
proof (induction n)
  case 0
  show ?case by (simp add: run_Nil startup_def notificationStats_def)
next
  case (Suc n)
  let ?sv = "run cfg (replicate n (topic, payload)) startup"
  from Suc.prems have "n < 2 ^ 53" by simp
  then have "int n < 2 ^ 53"
    by (metis of_nat_less_iff of_nat_numeral of_nat_power)
  then have small: "\<bar>int n\<bar> < 2 ^ 53" by simp
  from Suc.prems have "n \<le> 2 ^ 53" by simp
  then have before: "stats ?sv = \<lparr>received = int n, ackDelivered = 0, ackFailed = 0\<rparr>"
    by (rule Suc.IH)
  have "replicate (Suc n) (topic, payload) = replicate n (topic, payload) @ [(topic, payload)]"
    by (simp add: replicate_append_same)
  then have "run cfg (replicate (Suc n) (topic, payload)) startup = on_message cfg topic payload ?sv"
    by (simp add: run_append run_Cons run_Nil)
  also have "\<dots> = ?sv\<lparr>stats := (stats ?sv)\<lparr>received := increment (received (stats ?sv))\<rparr>\<rparr>"
    using assms by (rule on_message_user)
  finally show ?case
    using before increment_exact [OF small] by simp
qed


section \<open>Evaluations of the sample inputs\<close>

lemma user_payload_decodes: "JSON_parse (toString_utf8 user_payload) = Some user_value"
  by code_simp

lemma user_value_valid: "parseUserNotification user_value = Some user_event"
  by code_simp

lemma ack_delivered_payload_decodes:
  "JSON_parse (toString_utf8 ack_delivered_payload) = Some ack_delivered_value"
  by code_simp

lemma ack_delivered_value_valid: "parseDeliveryAck ack_delivered_value = Some ack_delivered_event"
  by code_simp

lemma ack_failed_payload_decodes:
  "JSON_parse (toString_utf8 ack_failed_payload) = Some ack_failed_value"
  by code_simp

lemma ack_failed_value_valid: "parseDeliveryAck ack_failed_value = Some ack_failed_event"
  by code_simp

lemma default_user_topic: "userNotificationTopic default_config = ''notification/user''"
  by code_simp

lemma default_ack_topic: "notificationAckTopic default_config = ''notification/ack''"
  by code_simp

lemma shared_user_topic: "userNotificationTopic shared_topic_config = ''events''"
  by code_simp

lemma shared_ack_topic: "notificationAckTopic shared_topic_config = ''events''"
  by code_simp

lemma truncated_payload_fails: "JSON_parse (toString_utf8 truncated_payload) = None"
  by code_simp

lemma bad_priority_decodes:
  "JSON_parse (toString_utf8 user_payload_bad_priority) = Some user_value_bad_priority"
  by code_simp

lemma bad_priority_invalid: "parseUserNotification user_value_bad_priority = None"
  by code_simp

lemma bad_reason_decodes:
  "JSON_parse (toString_utf8 ack_payload_bad_reason) = Some ack_value_bad_reason"
  by code_simp

lemma bad_reason_invalid: "parseDeliveryAck ack_value_bad_reason = None"
  by code_simp

lemma startup_stats: "stats startup = \<lparr>received = 0, ackDelivered = 0, ackFailed = 0\<rparr>"
  by (simp add: startup_def notificationStats_def)

section \<open>The claims about the message handler\<close>

text \<open>
  Claim C1, amended. A message on the user-notification topic whose payload decodes to a
  valid UserNotificationEvent adds exactly 1 to \<open>received\<close> and leaves the two
  acknowledgement counters as they were, provided \<open>received\<close> is below \<open>2^53\<close> in magnitude.
  A message on the acknowledgement topic whose payload decodes to a valid
  NotificationDeliveryAckEvent adds exactly 1 to \<open>ackDelivered\<close> when its status is DELIVERED
  and exactly 1 to \<open>ackFailed\<close> when it is FAILED, and leaves the other counters as they
  were, provided the counter to be incremented is below \<open>2^53\<close> in magnitude and the
  acknowledgement topic is not configured with the name of the user-notification topic:
  the handler tests the user-notification topic first, and the counters are doubles.
\<close>

theorem valid_event_counted_once:
  "(JSON_parse (toString_utf8 payload) = Some v \<and> parseUserNotification v = Some e
      \<and> topic = userNotificationTopic cfg \<and> \<bar>received (stats sv)\<bar> < 2 ^ 53
    \<longrightarrow> stats (on_message cfg topic payload sv)
          = (stats sv)\<lparr>received := received (stats sv) + 1\<rparr>)
   \<and> (JSON_parse (toString_utf8 payload) = Some v \<and> parseDeliveryAck v = Some a
        \<and> topic = notificationAckTopic cfg
        \<and> notificationAckTopic cfg \<noteq> userNotificationTopic cfg
      \<longrightarrow> (status a = ''DELIVERED'' \<and> \<bar>ackDelivered (stats sv)\<bar> < 2 ^ 53
             \<longrightarrow> stats (on_message cfg topic payload sv)
                   = (stats sv)\<lparr>ackDelivered := ackDelivered (stats sv) + 1\<rparr>)
          \<and> (status a = ''FAILED'' \<and> \<bar>ackFailed (stats sv)\<bar> < 2 ^ 53
             \<longrightarrow> stats (on_message cfg topic payload sv)
                   = (stats sv)\<lparr>ackFailed := ackFailed (stats sv) + 1\<rparr>))"
proof (intro conjI impI)
  assume h: "JSON_parse (toString_utf8 payload) = Some v \<and> parseUserNotification v = Some e
               \<and> topic = userNotificationTopic cfg \<and> \<bar>received (stats sv)\<bar> < 2 ^ 53"
  from h have p: "JSON_parse (toString_utf8 payload) = Some v" "parseUserNotification v = Some e"
    "topic = userNotificationTopic cfg"
    by simp_all
  from h have small: "\<bar>received (stats sv)\<bar> < 2 ^ 53"
    by simp
  have "on_message cfg topic payload sv =
          sv\<lparr>stats := (stats sv)\<lparr>received := increment (received (stats sv))\<rparr>\<rparr>"
    by (rule on_message_user [OF p])
  then show "stats (on_message cfg topic payload sv)
               = (stats sv)\<lparr>received := received (stats sv) + 1\<rparr>"
    by (simp add: increment_exact [OF small])
next
  assume h: "JSON_parse (toString_utf8 payload) = Some v \<and> parseDeliveryAck v = Some a
               \<and> topic = notificationAckTopic cfg
               \<and> notificationAckTopic cfg \<noteq> userNotificationTopic cfg"
    and d: "status a = ''DELIVERED'' \<and> \<bar>ackDelivered (stats sv)\<bar> < 2 ^ 53"
  from h have p: "JSON_parse (toString_utf8 payload) = Some v" "parseDeliveryAck v = Some a"
    "topic = notificationAckTopic cfg" "notificationAckTopic cfg \<noteq> userNotificationTopic cfg"
    by simp_all
  from d have small: "\<bar>ackDelivered (stats sv)\<bar> < 2 ^ 53"
    by simp
  have "on_message cfg topic payload sv =
          (if status a = ''DELIVERED''
           then sv\<lparr>stats := (stats sv)\<lparr>ackDelivered := increment (ackDelivered (stats sv))\<rparr>\<rparr>
           else sv\<lparr>stats := (stats sv)\<lparr>ackFailed := increment (ackFailed (stats sv))\<rparr>\<rparr>)"
    by (rule on_message_ack [OF p])
  with d show "stats (on_message cfg topic payload sv)
                 = (stats sv)\<lparr>ackDelivered := ackDelivered (stats sv) + 1\<rparr>"
    by (simp add: increment_exact [OF small])
next
  assume h: "JSON_parse (toString_utf8 payload) = Some v \<and> parseDeliveryAck v = Some a
               \<and> topic = notificationAckTopic cfg
               \<and> notificationAckTopic cfg \<noteq> userNotificationTopic cfg"
    and f: "status a = ''FAILED'' \<and> \<bar>ackFailed (stats sv)\<bar> < 2 ^ 53"
  from h have p: "JSON_parse (toString_utf8 payload) = Some v" "parseDeliveryAck v = Some a"
    "topic = notificationAckTopic cfg" "notificationAckTopic cfg \<noteq> userNotificationTopic cfg"
    by simp_all
  from f have small: "\<bar>ackFailed (stats sv)\<bar> < 2 ^ 53"
    by simp
  have "on_message cfg topic payload sv =
          (if status a = ''DELIVERED''
           then sv\<lparr>stats := (stats sv)\<lparr>ackDelivered := increment (ackDelivered (stats sv))\<rparr>\<rparr>
           else sv\<lparr>stats := (stats sv)\<lparr>ackFailed := increment (ackFailed (stats sv))\<rparr>\<rparr>)"
    by (rule on_message_ack [OF p])
  with f show "stats (on_message cfg topic payload sv)
                 = (stats sv)\<lparr>ackFailed := ackFailed (stats sv) + 1\<rparr>"
    by (simp add: increment_exact [OF small])
qed

text \<open>
  With the default topics and the counters at zero: the sample notification gives
  \<open>received = 1\<close>, the sample DELIVERED acknowledgement \<open>ackDelivered = 1\<close>, the sample
  FAILED one \<open>ackFailed = 1\<close>.
\<close>

theorem valid_event_counted_once_witness:
  "stats (on_message default_config ''notification/user'' user_payload startup)
     = \<lparr>received = 1, ackDelivered = 0, ackFailed = 0\<rparr>
   \<and> stats (on_message default_config ''notification/ack'' ack_delivered_payload startup)
     = \<lparr>received = 0, ackDelivered = 1, ackFailed = 0\<rparr>
   \<and> stats (on_message default_config ''notification/ack'' ack_failed_payload startup)
     = \<lparr>received = 0, ackDelivered = 0, ackFailed = 1\<rparr>"
proof (intro conjI)
  show "stats (on_message default_config ''notification/user'' user_payload startup)
          = \<lparr>received = 1, ackDelivered = 0, ackFailed = 0\<rparr>"
    using valid_event_counted_once
            [where payload = user_payload and v = user_value and e = user_event
               and topic = "''notification/user''" and cfg = default_config and sv = startup]
          user_payload_decodes user_value_valid default_user_topic
    by (simp add: startup_stats)
next
  have "status ack_delivered_event = ''DELIVERED''"
    by (simp add: ack_delivered_event_def)
  then show "stats (on_message default_config ''notification/ack'' ack_delivered_payload startup)
          = \<lparr>received = 0, ackDelivered = 1, ackFailed = 0\<rparr>"
    using valid_event_counted_once
            [where payload = ack_delivered_payload and v = ack_delivered_value
               and a = ack_delivered_event and topic = "''notification/ack''"
               and cfg = default_config and sv = startup]
          ack_delivered_payload_decodes ack_delivered_value_valid default_user_topic
          default_ack_topic
    by (simp add: startup_stats)
next
  have "status ack_failed_event = ''FAILED''"
    by (simp add: ack_failed_event_def)
  then show "stats (on_message default_config ''notification/ack'' ack_failed_payload startup)
          = \<lparr>received = 0, ackDelivered = 0, ackFailed = 1\<rparr>"
    using valid_event_counted_once
            [where payload = ack_failed_payload and v = ack_failed_value
               and a = ack_failed_event and topic = "''notification/ack''"
               and cfg = default_config and sv = startup]
          ack_failed_payload_decodes ack_failed_value_valid default_user_topic
          default_ack_topic
    by (simp add: startup_stats)
qed

text \<open>
  Claim C1 as stated fails in two ways. When both topic variables hold the same name, the
  sample DELIVERED acknowledgement, valid and sent on the acknowledgement topic, is tested
  as a user notification and dropped, and \<open>ackDelivered\<close> stays 0. And with the default
  topics, after \<open>2^53\<close> copies of the sample notification \<open>received\<close> is \<open>2^53\<close>, and one more
  copy, valid and on the user-notification topic, leaves it at \<open>2^53\<close>.
\<close>

theorem valid_event_not_counted_counterexample:
  "notificationAckTopic shared_topic_config = ''events''
   \<and> JSON_parse (toString_utf8 ack_delivered_payload) = Some ack_delivered_value
   \<and> parseDeliveryAck ack_delivered_value = Some ack_delivered_event
   \<and> status ack_delivered_event = ''DELIVERED''
   \<and> on_message shared_topic_config ''events'' ack_delivered_payload startup
       = \<lparr>stats = \<lparr>received = 0, ackDelivered = 0, ackFailed = 0\<rparr>,
          errors = [''analytics-pipeline received invalid UserNotification payload on events'']\<rparr>
   \<and> userNotificationTopic default_config = ''notification/user''
   \<and> JSON_parse (toString_utf8 user_payload) = Some user_value
   \<and> parseUserNotification user_value = Some user_event
   \<and> stats (run default_config many_notifications startup)
       = \<lparr>received = 2 ^ 53, ackDelivered = 0, ackFailed = 0\<rparr>
   \<and> stats (on_message default_config ''notification/user'' user_payload
               (run default_config many_notifications startup))
       = \<lparr>received = 2 ^ 53, ackDelivered = 0, ackFailed = 0\<rparr>"
proof (intro conjI)
  show "notificationAckTopic shared_topic_config = ''events''"
    by (rule shared_ack_topic)
  show "JSON_parse (toString_utf8 ack_delivered_payload) = Some ack_delivered_value"
    by (rule ack_delivered_payload_decodes)
  show "parseDeliveryAck ack_delivered_value = Some ack_delivered_event"
    by (rule ack_delivered_value_valid)
  show "status ack_delivered_event = ''DELIVERED''"
    by (simp add: ack_delivered_event_def)
  show "on_message shared_topic_config ''events'' ack_delivered_payload startup
          = \<lparr>stats = \<lparr>received = 0, ackDelivered = 0, ackFailed = 0\<rparr>,
             errors = [''analytics-pipeline received invalid UserNotification payload on events'']\<rparr>"
    by code_simp
  show topic: "userNotificationTopic default_config = ''notification/user''"
    by (rule default_user_topic)
  show "JSON_parse (toString_utf8 user_payload) = Some user_value"
    by (rule user_payload_decodes)
  show "parseUserNotification user_value = Some user_event"
    by (rule user_value_valid)
  let ?sv = "run default_config many_notifications startup"
  have "stats (run default_config (replicate (2 ^ 53) (''notification/user'', user_payload)) startup)
          = \<lparr>received = int (2 ^ 53), ackDelivered = 0, ackFailed = 0\<rparr>"
    using user_payload_decodes user_value_valid topic [symmetric]
    by (rule run_valid_notifications) simp
  then show many: "stats ?sv = \<lparr>received = 2 ^ 53, ackDelivered = 0, ackFailed = 0\<rparr>"
    by (simp add: many_notifications_def)
  have "on_message default_config ''notification/user'' user_payload ?sv
          = ?sv\<lparr>stats := (stats ?sv)\<lparr>received := increment (received (stats ?sv))\<rparr>\<rparr>"
    using user_payload_decodes user_value_valid topic [symmetric] by (rule on_message_user)
  then show "stats (on_message default_config ''notification/user'' user_payload ?sv)
               = \<lparr>received = 2 ^ 53, ackDelivered = 0, ackFailed = 0\<rparr>"
    using increment_at_limit by (simp add: many)
qed

text \<open>
  Claim C2. A message whose payload does not decode, or decodes to a value that the
  validator of its topic refuses, is dropped: the handler writes one line to the error
  log and returns, and \<open>received\<close>, \<open>ackDelivered\<close> and \<open>ackFailed\<close> are what they were.
  The handler has no other outcome for such a message (nothing is thrown).
\<close>

theorem dropped_message_changes_no_counter:
  "(JSON_parse (toString_utf8 payload) = None
    \<longrightarrow> on_message cfg topic payload sv = console_error (non_json_line topic) sv
        \<and> stats (on_message cfg topic payload sv) = stats sv)
   \<and> (JSON_parse (toString_utf8 payload) = Some v \<and> parseUserNotification v = None
        \<and> topic = userNotificationTopic cfg
      \<longrightarrow> on_message cfg topic payload sv
            = console_error (if v = JNull then non_json_line topic
                             else invalid_user_line topic) sv
          \<and> stats (on_message cfg topic payload sv) = stats sv)
   \<and> (JSON_parse (toString_utf8 payload) = Some v \<and> parseDeliveryAck v = None
        \<and> topic = notificationAckTopic cfg \<and> topic \<noteq> userNotificationTopic cfg
      \<longrightarrow> on_message cfg topic payload sv
            = console_error (if v = JNull then non_json_line topic
                             else invalid_ack_line topic) sv
          \<and> stats (on_message cfg topic payload sv) = stats sv)"
proof (intro conjI impI)
  assume "JSON_parse (toString_utf8 payload) = None"
  then have "on_message cfg topic payload sv = console_error (non_json_line topic) sv"
    by (rule on_message_undecodable)
  then show "on_message cfg topic payload sv = console_error (non_json_line topic) sv"
    and "stats (on_message cfg topic payload sv) = stats sv"
    by (simp_all add: stats_console_error)
next
  assume "JSON_parse (toString_utf8 payload) = Some v \<and> parseUserNotification v = None
            \<and> topic = userNotificationTopic cfg"
  then have p: "JSON_parse (toString_utf8 payload) = Some v" "parseUserNotification v = None"
    "topic = userNotificationTopic cfg"
    by simp_all
  have "on_message cfg topic payload sv
          = console_error (if v = JNull then non_json_line topic
                           else invalid_user_line topic) sv"
    by (rule on_message_invalid_user [OF p])
  then show "on_message cfg topic payload sv
               = console_error (if v = JNull then non_json_line topic
                                else invalid_user_line topic) sv"
    and "stats (on_message cfg topic payload sv) = stats sv"
    by (simp_all add: stats_console_error)
next
  assume "JSON_parse (toString_utf8 payload) = Some v \<and> parseDeliveryAck v = None
            \<and> topic = notificationAckTopic cfg \<and> topic \<noteq> userNotificationTopic cfg"
  then have p: "JSON_parse (toString_utf8 payload) = Some v" "parseDeliveryAck v = None"
    "topic = notificationAckTopic cfg" "topic \<noteq> userNotificationTopic cfg"
    by blast+
  have "on_message cfg topic payload sv
          = console_error (if v = JNull then non_json_line topic
                           else invalid_ack_line topic) sv"
    by (rule on_message_invalid_ack [OF p])
  then show "on_message cfg topic payload sv
               = console_error (if v = JNull then non_json_line topic
                                else invalid_ack_line topic) sv"
    and "stats (on_message cfg topic payload sv) = stats sv"
    by (simp_all add: stats_console_error)
qed

text \<open>
  A truncated payload, a notification whose priority is \<^verbatim>\<open>low\<close> and an acknowledgement
  whose \<^verbatim>\<open>failureReason\<close> is a number each leave the counters at zero.
\<close>

theorem dropped_message_changes_no_counter_witness:
  "stats (on_message default_config ''notification/user'' truncated_payload startup)
     = \<lparr>received = 0, ackDelivered = 0, ackFailed = 0\<rparr>
   \<and> stats (on_message default_config ''notification/user'' user_payload_bad_priority startup)
     = \<lparr>received = 0, ackDelivered = 0, ackFailed = 0\<rparr>
   \<and> stats (on_message default_config ''notification/ack'' ack_payload_bad_reason startup)
     = \<lparr>received = 0, ackDelivered = 0, ackFailed = 0\<rparr>"
proof (intro conjI)
  show "stats (on_message default_config ''notification/user'' truncated_payload startup)
          = \<lparr>received = 0, ackDelivered = 0, ackFailed = 0\<rparr>"
    using dropped_message_changes_no_counter
            [where payload = truncated_payload and topic = "''notification/user''"
               and cfg = default_config and sv = startup]
          truncated_payload_fails
    by (simp add: startup_stats stats_console_error)
next
  show "stats (on_message default_config ''notification/user'' user_payload_bad_priority startup)
          = \<lparr>received = 0, ackDelivered = 0, ackFailed = 0\<rparr>"
    using dropped_message_changes_no_counter
            [where payload = user_payload_bad_priority and v = user_value_bad_priority
               and topic = "''notification/user''" and cfg = default_config and sv = startup]
          bad_priority_decodes bad_priority_invalid default_user_topic
    by (simp add: startup_stats stats_console_error)
next
  show "stats (on_message default_config ''notification/ack'' ack_payload_bad_reason startup)
          = \<lparr>received = 0, ackDelivered = 0, ackFailed = 0\<rparr>"
    using dropped_message_changes_no_counter
            [where payload = ack_payload_bad_reason and v = ack_value_bad_reason
               and topic = "''notification/ack''" and cfg = default_config and sv = startup]
          bad_reason_decodes bad_reason_invalid default_user_topic default_ack_topic
    by (simp add: startup_stats stats_console_error)
qed

text \<open>
  Claim C5. The three counters are zero at startup; no message makes any of them smaller;
  so after any sequence of messages each is at least what it was before, and from startup
  each is a non-negative integer.
\<close>

theorem counters_start_at_zero_and_never_decrease:
  "received notificationStats = 0 \<and> ackDelivered notificationStats = 0
   \<and> ackFailed notificationStats = 0 \<and> stats startup = notificationStats
   \<and> received (stats sv) \<le> received (stats (on_message cfg topic payload sv))
   \<and> ackDelivered (stats sv) \<le> ackDelivered (stats (on_message cfg topic payload sv))
   \<and> ackFailed (stats sv) \<le> ackFailed (stats (on_message cfg topic payload sv))
   \<and> received (stats sv) \<le> received (stats (run cfg msgs sv))
   \<and> ackDelivered (stats sv) \<le> ackDelivered (stats (run cfg msgs sv))
   \<and> ackFailed (stats sv) \<le> ackFailed (stats (run cfg msgs sv))
   \<and> 0 \<le> received (stats (run cfg msgs startup))
   \<and> 0 \<le> ackDelivered (stats (run cfg msgs startup))
   \<and> 0 \<le> ackFailed (stats (run cfg msgs startup))"
proof -
  have zero: "received notificationStats = 0" "ackDelivered notificationStats = 0"
    "ackFailed notificationStats = 0" "stats startup = notificationStats"
    by (simp_all add: notificationStats_def startup_def)
  have step: "received (stats sv) \<le> received (stats (on_message cfg topic payload sv))"
    "ackDelivered (stats sv) \<le> ackDelivered (stats (on_message cfg topic payload sv))"
    "ackFailed (stats sv) \<le> ackFailed (stats (on_message cfg topic payload sv))"
    using on_message_received [of cfg topic payload sv]
      on_message_ackDelivered [of cfg topic payload sv]
      on_message_ackFailed [of cfg topic payload sv]
      increment_ge [of "received (stats sv)"] increment_ge [of "ackDelivered (stats sv)"]
      increment_ge [of "ackFailed (stats sv)"]
    by auto
  have many: "received (stats sv) \<le> received (stats (run cfg msgs sv))"
    "ackDelivered (stats sv) \<le> ackDelivered (stats (run cfg msgs sv))"
    "ackFailed (stats sv) \<le> ackFailed (stats (run cfg msgs sv))"
    using run_monotone [of sv cfg msgs] by simp_all
  have from_startup: "0 \<le> received (stats (run cfg msgs startup))"
    "0 \<le> ackDelivered (stats (run cfg msgs startup))"
    "0 \<le> ackFailed (stats (run cfg msgs startup))"
    using run_monotone [of startup cfg msgs] zero by simp_all
  show ?thesis
    using zero step many from_startup by simp
qed

text \<open>
  A run of four messages from startup: a notification, a truncated payload, a DELIVERED
  and a FAILED acknowledgement.
\<close>

theorem counters_start_at_zero_and_never_decrease_witness:
  "stats (run default_config
            [(''notification/user'', user_payload), (''notification/user'', truncated_payload),
             (''notification/ack'', ack_delivered_payload),
             (''notification/ack'', ack_failed_payload)] startup)
     = \<lparr>received = 1, ackDelivered = 1, ackFailed = 1\<rparr>
   \<and> 0 \<le> received (stats (run default_config
            [(''notification/user'', user_payload), (''notification/user'', truncated_payload),
             (''notification/ack'', ack_delivered_payload),
             (''notification/ack'', ack_failed_payload)] startup))"
proof
  show "stats (run default_config
            [(''notification/user'', user_payload), (''notification/user'', truncated_payload),
             (''notification/ack'', ack_delivered_payload),
             (''notification/ack'', ack_failed_payload)] startup)
     = \<lparr>received = 1, ackDelivered = 1, ackFailed = 1\<rparr>"
    by code_simp
  show "0 \<le> received (stats (run default_config
            [(''notification/user'', user_payload), (''notification/user'', truncated_payload),
             (''notification/ack'', ack_delivered_payload),
             (''notification/ack'', ack_failed_payload)] startup))"
    using counters_start_at_zero_and_never_decrease
            [where cfg = default_config and sv = startup
               and msgs = "[(''notification/user'', user_payload),
                            (''notification/user'', truncated_payload),
                            (''notification/ack'', ack_delivered_payload),
                            (''notification/ack'', ack_failed_payload)]"]
    by simp
qed

section \<open>The claims about the validators and the decoder\<close>

lemma get_property_object: "get_property v k = Some x \<Longrightarrow> isObjectPayload v"
  by (cases v) (simp_all add: isObjectPayload_def)

lemma get_property_other_member:
  "name \<noteq> k \<Longrightarrow>
     get_property (JObject (xs @ (k, x) # ys)) name = get_property (JObject (xs @ ys)) name"
  by (simp add: map_add_def split: option.splits)

lemma the_string_JString: "map_option (\<lambda>x. the_string (Some x)) (map_option JString f) = f"
  by (cases f) simp_all

lemma isObjectPayload_JObject: "isObjectPayload (JObject kvs)"
  by (simp add: isObjectPayload_def)

lemma user_value_extra_valid: "parseUserNotification user_value_extra = Some user_event"
  by code_simp

text \<open>
  Claim C3, amended. The user-notification validator accepts a decoded value, with the
  event \<open>e\<close> as its result, if and only if the value is a non-null keyed structure whose
  members \<^verbatim>\<open>notificationId\<close>, \<^verbatim>\<open>requestId\<close>, \<^verbatim>\<open>title\<close>, \<^verbatim>\<open>body\<close> and \<^verbatim>\<open>priority\<close> are
  present and are strings, the fields of \<open>e\<close>, and \<^verbatim>\<open>priority\<close> is exactly one of \<^verbatim>\<open>LOW\<close>,
  \<^verbatim>\<open>NORMAL\<close>, \<^verbatim>\<open>HIGH\<close>; any other priority, a missing field or a field of another type
  makes the whole event invalid. A member under any other name is ignored: it does not
  make the event invalid and is not in the result.
\<close>

theorem user_notification_accepted_iff:
  "(parseUserNotification v = Some e \<longleftrightarrow>
      isObjectPayload v
      \<and> get_property v ''notificationId''
          = Some (JString (UserNotificationEvent.notificationId e))
      \<and> get_property v ''requestId'' = Some (JString (UserNotificationEvent.requestId e))
      \<and> get_property v ''title'' = Some (JString (title e))
      \<and> get_property v ''body'' = Some (JString (body e))
      \<and> get_property v ''priority'' = Some (JString (priority e))
      \<and> priority e \<in> {''LOW'', ''NORMAL'', ''HIGH''})
   \<and> (k \<notin> {''notificationId'', ''requestId'', ''title'', ''body'', ''priority''}
      \<longrightarrow> parseUserNotification (JObject (xs @ (k, x) # ys))
          = parseUserNotification (JObject (xs @ ys)))"
proof (intro conjI impI)
  show "parseUserNotification v = Some e \<longleftrightarrow>
      isObjectPayload v
      \<and> get_property v ''notificationId''
          = Some (JString (UserNotificationEvent.notificationId e))
      \<and> get_property v ''requestId'' = Some (JString (UserNotificationEvent.requestId e))
      \<and> get_property v ''title'' = Some (JString (title e))
      \<and> get_property v ''body'' = Some (JString (body e))
      \<and> get_property v ''priority'' = Some (JString (priority e))
      \<and> priority e \<in> {''LOW'', ''NORMAL'', ''HIGH''}"
    unfolding parseUserNotification_Some by (cases e) auto
next
  assume "k \<notin> {''notificationId'', ''requestId'', ''title'', ''body'', ''priority''}"
  then have "\<And>name. name \<in> {''notificationId'', ''requestId'', ''title'', ''body'', ''priority''}
               \<Longrightarrow> get_property (JObject (xs @ (k, x) # ys)) name
                   = get_property (JObject (xs @ ys)) name"
    by (intro get_property_other_member) auto
  then show "parseUserNotification (JObject (xs @ (k, x) # ys))
               = parseUserNotification (JObject (xs @ ys))"
    unfolding parseUserNotification_def by (simp add: isObjectPayload_JObject)
qed

text \<open>
  The sample notification is accepted with the sample event as its result, and the same
  notification with a member \<^verbatim>\<open>channel\<close> after the five is accepted as the one without
  it is.
\<close>

theorem user_notification_accepted_iff_witness:
  "parseUserNotification user_value = Some user_event
   \<and> parseUserNotification
        (JObject ([(''notificationId'', JString ''n1''), (''requestId'', JString ''r1''),
                   (''title'', JString ''t''), (''body'', JString ''b''),
                   (''priority'', JString ''LOW'')] @ (''channel'', JString ''sms'') # []))
       = parseUserNotification
           (JObject ([(''notificationId'', JString ''n1''), (''requestId'', JString ''r1''),
                      (''title'', JString ''t''), (''body'', JString ''b''),
                      (''priority'', JString ''LOW'')] @ []))"
proof
  have "isObjectPayload user_value"
    by (simp add: user_value_def isObjectPayload_JObject)
  then show "parseUserNotification user_value = Some user_event"
    using user_notification_accepted_iff [where v = user_value and e = user_event]
    by (simp add: user_value_def user_event_def)
next
  show "parseUserNotification
        (JObject ([(''notificationId'', JString ''n1''), (''requestId'', JString ''r1''),
                   (''title'', JString ''t''), (''body'', JString ''b''),
                   (''priority'', JString ''LOW'')] @ (''channel'', JString ''sms'') # []))
       = parseUserNotification
           (JObject ([(''notificationId'', JString ''n1''), (''requestId'', JString ''r1''),
                      (''title'', JString ''t''), (''body'', JString ''b''),
                      (''priority'', JString ''LOW'')] @ []))"
    using user_notification_accepted_iff
            [where k = "''channel''" and x = "JString ''sms''" and ys = "[]"
               and xs = "[(''notificationId'', JString ''n1''), (''requestId'', JString ''r1''),
                          (''title'', JString ''t''), (''body'', JString ''b''),
                          (''priority'', JString ''LOW'')]"]
    by simp
qed

text \<open>
  Claim C3 as stated fails on a value that has a sixth member: it departs from exactly
  the five fields, and the validator accepts it.
\<close>

theorem six_members_accepted_counterexample:
  "get_property user_value_extra ''channel'' = Some (JString ''sms'')
   \<and> parseUserNotification user_value_extra = Some user_event"
proof
  show "get_property user_value_extra ''channel'' = Some (JString ''sms'')"
    by code_simp
  show "parseUserNotification user_value_extra = Some user_event"
    by (rule user_value_extra_valid)
qed

text \<open>
  Claim C4. The delivery-acknowledgement validator accepts a decoded value, with the event
  \<open>e\<close> as its result, if and only if the members \<^verbatim>\<open>requestId\<close>, \<^verbatim>\<open>notificationId\<close>,
  \<^verbatim>\<open>acknowledgedAt\<close> and \<^verbatim>\<open>status\<close> are present and are strings, \<^verbatim>\<open>status\<close> is exactly
  \<^verbatim>\<open>DELIVERED\<close> or \<^verbatim>\<open>FAILED\<close>, and \<^verbatim>\<open>failureReason\<close> is absent or a string. So a value
  with the four fields and no \<^verbatim>\<open>failureReason\<close> is valid, and a value whose
  \<^verbatim>\<open>failureReason\<close> is present and not a string is invalid as a whole.
\<close>

theorem delivery_ack_accepted_iff:
  "(parseDeliveryAck v = Some e \<longleftrightarrow>
      get_property v ''requestId'' = Some (JString (requestId e))
      \<and> get_property v ''notificationId'' = Some (JString (notificationId e))
      \<and> get_property v ''acknowledgedAt'' = Some (JString (acknowledgedAt e))
      \<and> get_property v ''status'' = Some (JString (status e))
      \<and> status e \<in> {''DELIVERED'', ''FAILED''}
      \<and> get_property v ''failureReason'' = map_option JString (failureReason e))
   \<and> (get_property v ''failureReason'' = Some y \<and> typeof (Some y) \<noteq> TString
      \<longrightarrow> parseDeliveryAck v = None)"
proof (intro conjI impI)
  have obj: "get_property v ''requestId'' = Some (JString (requestId e)) \<Longrightarrow> isObjectPayload v"
    by (rule get_property_object)
  show "parseDeliveryAck v = Some e \<longleftrightarrow>
      get_property v ''requestId'' = Some (JString (requestId e))
      \<and> get_property v ''notificationId'' = Some (JString (notificationId e))
      \<and> get_property v ''acknowledgedAt'' = Some (JString (acknowledgedAt e))
      \<and> get_property v ''status'' = Some (JString (status e))
      \<and> status e \<in> {''DELIVERED'', ''FAILED''}
      \<and> get_property v ''failureReason'' = map_option JString (failureReason e)"
    unfolding parseDeliveryAck_Some using obj by (cases e) (auto simp add: the_string_JString)
next
  assume "get_property v ''failureReason'' = Some y \<and> typeof (Some y) \<noteq> TString"
  then show "parseDeliveryAck v = None"
    by (simp add: parseDeliveryAck_def Let_def typeof_TUndefined)
qed

text \<open>
  The sample acknowledgement without \<^verbatim>\<open>failureReason\<close> is accepted, and the one whose
  \<^verbatim>\<open>failureReason\<close> is the number 7 is refused.
\<close>

theorem delivery_ack_accepted_iff_witness:
  "parseDeliveryAck ack_delivered_value = Some ack_delivered_event
   \<and> get_property ack_delivered_value ''failureReason'' = None
   \<and> get_property ack_value_bad_reason ''failureReason'' = Some (JNumber ''7'')
   \<and> parseDeliveryAck ack_value_bad_reason = None"
proof (intro conjI)
  show "parseDeliveryAck ack_delivered_value = Some ack_delivered_event"
    using delivery_ack_accepted_iff [where v = ack_delivered_value and e = ack_delivered_event]
    by (simp add: ack_delivered_value_def ack_delivered_event_def)
  show "get_property ack_delivered_value ''failureReason'' = None"
    by (simp add: ack_delivered_value_def)
  show reason: "get_property ack_value_bad_reason ''failureReason'' = Some (JNumber ''7'')"
    by (simp add: ack_value_bad_reason_def)
  show "parseDeliveryAck ack_value_bad_reason = None"
    using delivery_ack_accepted_iff [where v = ack_value_bad_reason and y = "JNumber ''7''"]
      reason
    by simp
qed

text \<open>
  Claim C6, at the payload \<^verbatim>\<open>null\<close>. The four bytes are well-formed JSON, and the decoder
  gives for them the value it gives for a payload that does not parse: the handler writes
  the line for a payload that is not JSON and returns before any validator runs.
\<close>

theorem null_document_reported_as_decode_failure:
  "JSON_parse (toString_utf8 ''null'') = Some JNull
   \<and> JSON_parse (toString_utf8 truncated_payload) = None
   \<and> parseJsonPayload ''null'' = parseJsonPayload truncated_payload
   \<and> on_message default_config ''notification/user'' ''null'' startup
       = \<lparr>stats = \<lparr>received = 0, ackDelivered = 0, ackFailed = 0\<rparr>,
          errors = [''analytics-pipeline received non-JSON MQTT payload on topic notification/user'']\<rparr>"
proof (intro conjI)
  show "JSON_parse (toString_utf8 ''null'') = Some JNull"
    by code_simp
  show "JSON_parse (toString_utf8 truncated_payload) = None"
    by (rule truncated_payload_fails)
  show "parseJsonPayload ''null'' = parseJsonPayload truncated_payload"
    by code_simp
  show "on_message default_config ''notification/user'' ''null'' startup
       = \<lparr>stats = \<lparr>received = 0, ackDelivered = 0, ackFailed = 0\<rparr>,
          errors = [''analytics-pipeline received non-JSON MQTT payload on topic notification/user'']\<rparr>"
    by code_simp
qed

section \<open>The claims about dates and the HTTP handlers\<close>

lemma date_pattern_iff:
  "date_pattern v \<longleftrightarrow>
     (\<exists>y1 y2 y3 y4 m1 m2 d1 d2.
        v = [y1, y2, y3, y4, CHR ''-'', m1, m2, CHR ''-'', d1, d2]
        \<and> list_all is_digit [y1, y2, y3, y4, m1, m2, d1, d2])"
  by (cases v rule: date_pattern.cases) auto

lemma isValidDateString_empty: "\<not> isValidDateString []"
  by (simp add: isValidDateString_def)

lemma isValidDateString_iff:
  "isValidDateString v \<longleftrightarrow>
     date_pattern v
     \<and> (\<exists>t. Date_parse (v @ ''T00:00:00.000Z'') = Some t \<and> take 10 (toISOString t) = v)"
  by (auto simp add: isValidDateString_def split: option.splits)

lemma string_gt_lexord: "string_gt a b \<longleftrightarrow> (b, a) \<in> lexord unit_less"
  by (induction a b rule: string_gt.induct) (auto simp add: unit_less_def)

lemma readDateQueryParam_Some:
  "readDateQueryParam q name = Some d \<longleftrightarrow> q name = Some (QString d) \<and> isValidDateString d"
  by (auto simp add: readDateQueryParam_def split: option.splits query_value.splits)

lemma falsy_readDateQueryParam:
  "falsy (readDateQueryParam q name) \<longleftrightarrow> \<not> date_param_valid q name"
  using isValidDateString_empty
  by (auto simp add: falsy_def readDateQueryParam_def date_param_valid_def
      split: option.splits query_value.splits)

lemma date_param_valid_string:
  "date_param_valid q name \<Longrightarrow> q name = Some (QString (string_or_empty (q name)))"
  by (auto simp add: date_param_valid_def string_or_empty_def
      split: option.splits query_value.splits)

lemma date_param_valid_read:
  "date_param_valid q name \<Longrightarrow> readDateQueryParam q name = Some (string_or_empty (q name))"
  by (auto simp add: date_param_valid_def string_or_empty_def readDateQueryParam_def
      split: option.splits query_value.splits)

lemma date_param_valid_iff:
  "date_param_valid q name \<longleftrightarrow> isValidDateString (string_or_empty (q name))"
  using isValidDateString_empty
  by (auto simp add: date_param_valid_def string_or_empty_def
      split: option.splits query_value.splits)

lemma interval_param_valid_iff:
  "interval_param_valid q \<longleftrightarrow> string_or_empty (q ''interval'') \<in> set trendIntervals"
  by (auto simp add: interval_param_valid_def string_or_empty_def trendIntervals_def
      split: option.splits query_value.splits)

lemma not_string_value: "\<not> is_string_value x \<Longrightarrow> string_or_empty (Some x) = []"
  by (cases x) (simp_all add: string_or_empty_def)

lemma not_string_param:
  "q name = Some x \<Longrightarrow> \<not> is_string_value x \<Longrightarrow> \<not> date_param_valid q name"
  by (cases x) (simp_all add: date_param_valid_def)

lemma daily_summary_cases:
  "daily_summary q =
     (if date_param_valid q ''date''
      then \<lparr>http_status = 200,
            json_body = JObject [(''date'', JString (string_or_empty (q ''date''))),
                                 (''totalOrders'', JNumber ''125''),
                                 (''grossRevenue'', JNumber ''15675.5''),
                                 (''avgOrderValue'', JNumber ''125.4'')]\<rparr>
      else \<lparr>http_status = 400,
            json_body = JObject [(''error'',
                                  JString ''Invalid or missing date query parameter'')]\<rparr>)"
  by (simp add: daily_summary_def Let_def date_param_valid_iff error_body_def)

lemma trend_cases:
  "trend q =
     (if date_param_valid q ''from'' \<and> date_param_valid q ''to'' \<and> interval_param_valid q
         \<and> \<not> string_gt (string_or_empty (q ''from'')) (string_or_empty (q ''to''))
      then \<lparr>http_status = 200,
            json_body =
              JObject [(''from'', JString (string_or_empty (q ''from''))),
                       (''to'', JString (string_or_empty (q ''to''))),
                       (''interval'', JString (string_or_empty (q ''interval''))),
                       (''points'',
                        JArray [JObject [(''bucketStart'',
                                          JString (string_or_empty (q ''from''))),
                                         (''totalOrders'', JNumber ''120''),
                                         (''grossRevenue'', JNumber ''15400.25'')]])]\<rparr>
      else \<lparr>http_status = 400,
            json_body = JObject [(''error'', JString ''Invalid query parameters'')]\<rparr>)"
proof (cases "date_param_valid q ''from'' \<and> date_param_valid q ''to''")
  case True
  then have "readDateQueryParam q ''from'' = Some (string_or_empty (q ''from''))"
    and "readDateQueryParam q ''to'' = Some (string_or_empty (q ''to''))"
    by (simp_all add: date_param_valid_read)
  then show ?thesis
    using True falsy_readDateQueryParam [of q "''from''"] falsy_readDateQueryParam [of q "''to''"]
    by (simp add: trend_def Let_def interval_param_valid_iff error_body_def)
next
  case False
  then show ?thesis
    using falsy_readDateQueryParam [of q "''from''"] falsy_readDateQueryParam [of q "''to''"]
    by (auto simp add: trend_def Let_def error_body_def)
qed

lemma tier_distribution_cases:
  "tier_distribution q =
     (if date_param_valid q ''date''
      then \<lparr>http_status = 200,
            json_body =
              JObject [(''date'', JString (string_or_empty (q ''date''))),
                       (''tiers'',
                        JArray [JObject [(''tier'', JString ''STANDARD''),
                                         (''customers'', JNumber ''950'')],
                                JObject [(''tier'', JString ''GOLD''),
                                         (''customers'', JNumber ''320'')],
                                JObject [(''tier'', JString ''PLATINUM''),
                                         (''customers'', JNumber ''80'')]])]\<rparr>
      else \<lparr>http_status = 400,
            json_body = JObject [(''error'', JString ''Invalid query parameters'')]\<rparr>)"
proof (cases "date_param_valid q ''date''")
  case True
  then have "readDateQueryParam q ''date'' = Some (string_or_empty (q ''date''))"
    by (rule date_param_valid_read)
  then show ?thesis
    using True falsy_readDateQueryParam [of q "''date''"]
    by (simp add: tier_distribution_def Let_def)
next
  case False
  then show ?thesis
    using falsy_readDateQueryParam [of q "''date''"]
    by (simp add: tier_distribution_def Let_def error_body_def)
qed

lemma valid_2023_03_15: "isValidDateString ''2023-03-15''"
  by code_simp

lemma valid_2023_03_01: "isValidDateString ''2023-03-01''"
  by code_simp

lemma valid_2023_03_10: "isValidDateString ''2023-03-10''"
  by code_simp

lemma invalid_2023_02_30: "\<not> isValidDateString ''2023-02-30''"
  by code_simp

lemma invalid_2023_13_01: "\<not> isValidDateString ''2023-13-01''"
  by code_simp

text \<open>
  The rule of the validator is the Gregorian calendar: a string passes exactly when it has
  the form and names a month from 01 to 12 and a day from 01 to the length of that month
  in that year.
\<close>

lemma DaysInYear_le: "DaysInYear y \<le> 366"
  by (simp add: DaysInYear_def)

lemma DayFromYear_1970: "DayFromYear 1970 = 0"
  by (simp add: DayFromYear_def)

lemma DayFromYear_less: "DayFromYear y < DayFromYear (y + 1)"
  using DaysInYear_pos [of y] by (simp add: DayFromYear_step)

lemma DayFromYear_add: "DayFromYear y < DayFromYear (y + 1 + int n)"
proof (induction n)
  case 0
  show ?case using DayFromYear_less [of y] by simp
next
  case (Suc n)
  have "DayFromYear (y + 1 + int n) < DayFromYear (y + 1 + int n + 1)"
    by (rule DayFromYear_less)
  with Suc show ?case by (simp add: add.assoc)
qed

lemma DayFromYear_strict_mono:
  assumes "y < z"
  shows "DayFromYear y < DayFromYear z"
proof -
  have "z = y + 1 + int (nat (z - y - 1))"
    using assms by simp
  then show ?thesis
    using DayFromYear_add [of y "nat (z - y - 1)"] by simp
qed

lemma DayFromYear_mono: "y \<le> z \<Longrightarrow> DayFromYear y \<le> DayFromYear z"
  using DayFromYear_strict_mono [of y z] by (cases "y = z") auto

lemma year_search_spec:
  "DayFromYear y \<le> d \<Longrightarrow>
     DayFromYear (year_search d y) \<le> d \<and> d < DayFromYear (year_search d y + 1)"
proof (induction d y rule: year_search.induct)
  case (1 d y)
  show ?case
  proof (cases "DayFromYear (y + 1) \<le> d")
    case True
    then have "year_search d y = year_search d (y + 1)"
      by (subst year_search.simps) simp
    with "1.IH" [OF True True] show ?thesis
      by simp
  next
    case False
    then have "year_search d y = y"
      by (subst year_search.simps) simp
    with False "1.prems" show ?thesis
      by simp
  qed
qed

lemma year_unique:
  assumes "DayFromYear y \<le> d" "d < DayFromYear (y + 1)"
    and "DayFromYear z \<le> d" "d < DayFromYear (z + 1)"
  shows "y = z"
proof (rule ccontr)
  assume "y \<noteq> z"
  then consider "y + 1 \<le> z" | "z + 1 \<le> y"
    by linarith
  then show False
  proof cases
    case 1
    then have "DayFromYear (y + 1) \<le> DayFromYear z"
      by (rule DayFromYear_mono)
    with assms show False by simp
  next
    case 2
    then have "DayFromYear (z + 1) \<le> DayFromYear y"
      by (rule DayFromYear_mono)
    with assms show False by simp
  qed
qed

lemma DayFromYear_after: "DayFromYear (1970 + int n) \<le> 366 * int n"
proof (induction n)
  case 0
  show ?case by (simp add: DayFromYear_1970)
next
  case (Suc n)
  have "DayFromYear (1970 + int n + 1) = DayFromYear (1970 + int n) + DaysInYear (1970 + int n)"
    by (rule DayFromYear_step)
  with Suc DaysInYear_le [of "1970 + int n"] show ?case
    by (simp add: add.assoc)
qed

lemma DayFromYear_before: "DayFromYear (1970 - int n) \<le> - 365 * int n"
proof (induction n)
  case 0
  show ?case by (simp add: DayFromYear_1970)
next
  case (Suc n)
  have "DayFromYear (1970 - int (Suc n) + 1)
          = DayFromYear (1970 - int (Suc n)) + DaysInYear (1970 - int (Suc n))"
    by (rule DayFromYear_step)
  moreover have "1970 - int (Suc n) + 1 = 1970 - int n"
    by simp
  ultimately show ?case
    using Suc DaysInYear_pos [of "1970 - int (Suc n)"] by simp
qed

lemma year_estimate: "DayFromYear (1970 + (if 0 \<le> d then d div 366 else d div 365)) \<le> d"
proof (cases "0 \<le> d")
  case True
  then have k: "0 \<le> d div 366"
    by simp
  have "DayFromYear (1970 + int (nat (d div 366))) \<le> 366 * int (nat (d div 366))"
    by (rule DayFromYear_after)
  moreover have "366 * (d div 366) \<le> d"
    by simp
  ultimately show ?thesis
    using True k by simp
next
  case False
  then have k: "d div 365 \<le> 0"
    by simp
  have "DayFromYear (1970 - int (nat (- (d div 365)))) \<le> - 365 * int (nat (- (d div 365)))"
    by (rule DayFromYear_before)
  moreover have "365 * (d div 365) \<le> d"
    by simp
  ultimately show ?thesis
    using False k by simp
qed

lemma YearFromDay_eq:
  assumes "DayFromYear y \<le> d" and "d < DayFromYear y + DaysInYear y"
  shows "YearFromDay d = y"
proof -
  let ?y0 = "1970 + (if 0 \<le> d then d div 366 else d div 365)"
  have "DayFromYear (year_search d ?y0) \<le> d \<and> d < DayFromYear (year_search d ?y0 + 1)"
    using year_estimate [of d] by (rule year_search_spec)
  then have "year_search d ?y0 = y"
    using assms by (intro year_unique [of _ d y]) (simp_all add: DayFromYear_step)
  then show ?thesis
    by (simp add: YearFromDay_def)
qed

lemma Day_of_days: "Day (d * msPerDay) = d" "TimeWithinDay (d * msPerDay) = 0"
  by (simp_all add: Day_def TimeWithinDay_def msPerDay_def)

lemma time_of_day_in_year:
  assumes "0 \<le> k" and "k < DaysInYear y"
  shows "YearFromTime ((DayFromYear y + k) * msPerDay) = y"
    and "DayWithinYear ((DayFromYear y + k) * msPerDay) = k"
    and "InLeapYear ((DayFromYear y + k) * msPerDay) = (if DaysInYear y = 366 then 1 else 0)"
proof -
  show y: "YearFromTime ((DayFromYear y + k) * msPerDay) = y"
    unfolding YearFromTime_def Day_of_days using assms by (intro YearFromDay_eq) simp_all
  show "DayWithinYear ((DayFromYear y + k) * msPerDay) = k"
    by (simp add: DayWithinYear_def y Day_of_days)
  show "InLeapYear ((DayFromYear y + k) * msPerDay) = (if DaysInYear y = 366 then 1 else 0)"
    by (simp add: InLeapYear_def y)
qed

lemma month_cases:
  fixes m :: int
  assumes "1 \<le> m" "m \<le> 12"
  shows "m = 1 \<or> m = 2 \<or> m = 3 \<or> m = 4 \<or> m = 5 \<or> m = 6
         \<or> m = 7 \<or> m = 8 \<or> m = 9 \<or> m = 10 \<or> m = 11 \<or> m = 12"
  using assms by arith

lemma DaysInYear_cases: "DaysInYear y = 365 \<or> DaysInYear y = 366"
  by (simp add: DaysInYear_def)

lemma day_in_year_bounds:
  assumes "1 \<le> m" "m \<le> 12" "1 \<le> d" "d \<le> 31"
  shows "0 \<le> month_start (if DaysInYear y = 366 then 1 else 0) (m - 1) + d - 1"
    and "month_start (if DaysInYear y = 366 then 1 else 0) (m - 1) + d - 1 < DaysInYear y"
  using assms(3,4) DaysInYear_cases [of y] month_cases [OF assms(1,2)]
  by (elim disjE; simp add: month_start_def)+

lemma MakeDay_in_year:
  assumes "1 \<le> m" "m \<le> 12"
  shows "MakeDay y (m - 1) d
           = DayFromYear y + (month_start (if DaysInYear y = 366 then 1 else 0) (m - 1) + d - 1)"
proof -
  have "(m - 1) div 12 = 0" "(m - 1) mod 12 = m - 1"
    using assms by simp_all
  then show ?thesis
    by (simp add: MakeDay_def Let_def)
qed

lemma calendar_round_trip:
  fixes y m d t :: int
  assumes "1 \<le> m" "m \<le> 12" "1 \<le> d" "d \<le> 31"
  defines "t \<equiv> MakeDate (MakeDay y (m - 1) d) (MakeTime 0 0 0 0)"
  shows "YearFromTime t = y"
    and "TimeWithinDay t = 0"
    and "0 \<le> MonthFromTime t" "MonthFromTime t \<le> 11"
    and "1 \<le> DateFromTime t" "DateFromTime t \<le> 31"
    and "MonthFromTime t + 1 = m \<and> DateFromTime t = d \<longleftrightarrow> d \<le> days_in_month y m"
proof -
  let ?l = "if DaysInYear y = 366 then 1 else 0 :: int"
  let ?k = "month_start ?l (m - 1) + d - 1"
  have t: "t = (DayFromYear y + ?k) * msPerDay"
    by (simp add: t_def MakeDate_def MakeTime_def MakeDay_in_year [OF assms(1,2)])
  have k: "0 \<le> ?k" "?k < DaysInYear y"
    by (rule day_in_year_bounds [OF assms(1-4)])+
  show "YearFromTime t = y"
    unfolding t by (rule time_of_day_in_year [OF k])
  show "TimeWithinDay t = 0"
    unfolding t by (rule Day_of_days)
  have w: "DayWithinYear t = ?k" and l: "InLeapYear t = ?l"
    unfolding t by (rule time_of_day_in_year [OF k])+
  show "0 \<le> MonthFromTime t" "MonthFromTime t \<le> 11"
    by (simp_all add: MonthFromTime_def Let_def)
  show "1 \<le> DateFromTime t" "DateFromTime t \<le> 31"
    using assms(3,4) DaysInYear_cases [of y] month_cases [OF assms(1,2)]
    by (elim disjE; simp add: DateFromTime_def MonthFromTime_def Let_def w l month_start_def)+
  show "MonthFromTime t + 1 = m \<and> DateFromTime t = d \<longleftrightarrow> d \<le> days_in_month y m"
    using assms(3,4) DaysInYear_cases [of y] month_cases [OF assms(1,2)]
    by (elim disjE; simp add: DateFromTime_def MonthFromTime_def Let_def w l month_start_def
                              days_in_month_def; arith)
qed

lemma char_of_48: "char_of (48 :: nat) = CHR ''0''"
  by code_simp

lemma show_nat_1: "n < 10 \<Longrightarrow> show_nat n = [char_of (48 + n)]"
  by (subst show_nat.simps) simp

lemma pad_2:
  assumes "n < 100"
  shows "pad 2 n = [char_of (48 + n div 10), char_of (48 + n mod 10)]"
proof (cases "n < 10")
  case True
  then show ?thesis
    by (simp add: pad_def show_nat_1 char_of_48)
next
  case False
  then have "n div 10 < 10"
    using assms by simp
  then have "show_nat n = [char_of (48 + n div 10), char_of (48 + n mod 10)]"
    using False by (subst show_nat.simps) (simp add: show_nat_1)
  then show ?thesis
    by (simp add: pad_def)
qed

lemma pad_3:
  assumes "n < 1000"
  shows "pad 3 n = [char_of (48 + n div 10 div 10), char_of (48 + n div 10 mod 10),
                    char_of (48 + n mod 10)]"
proof (cases "n < 10")
  case True
  then show ?thesis
    by (simp add: pad_def show_nat_1 char_of_48 numeral_3_eq_3)
next
  case False
  have d: "n div 10 < 100"
    using assms by simp
  have "show_nat n = show_nat (n div 10) @ [char_of (48 + n mod 10)]"
    using False by (subst show_nat.simps) simp
  moreover have "pad 3 n = replicate (3 - length (show_nat n)) (CHR ''0'') @ show_nat n"
    by (simp add: pad_def)
  moreover have "pad 2 (n div 10)
                   = replicate (2 - length (show_nat (n div 10))) (CHR ''0'') @ show_nat (n div 10)"
    by (simp add: pad_def)
  ultimately have "pad 3 n = pad 2 (n div 10) @ [char_of (48 + n mod 10)]"
    by simp
  then show ?thesis
    by (simp add: pad_2 [OF d])
qed

lemma pad_4:
  assumes "n < 10000"
  shows "pad 4 n = [char_of (48 + n div 10 div 10 div 10), char_of (48 + n div 10 div 10 mod 10),
                    char_of (48 + n div 10 mod 10), char_of (48 + n mod 10)]"
proof (cases "n < 10")
  case True
  then show ?thesis
    by (simp add: pad_def show_nat_1 char_of_48 numeral_3_eq_3)
next
  case False
  have d: "n div 10 < 1000"
    using assms by simp
  have "show_nat n = show_nat (n div 10) @ [char_of (48 + n mod 10)]"
    using False by (subst show_nat.simps) simp
  moreover have "pad 4 n = replicate (4 - length (show_nat n)) (CHR ''0'') @ show_nat n"
    by (simp add: pad_def)
  moreover have "pad 3 (n div 10)
                   = replicate (3 - length (show_nat (n div 10))) (CHR ''0'') @ show_nat (n div 10)"
    by (simp add: pad_def)
  ultimately have "pad 4 n = pad 3 (n div 10) @ [char_of (48 + n mod 10)]"
    by simp
  then show ?thesis
    by (simp add: pad_3 [OF d])
qed

lemma digit_val_less: "is_digit c \<Longrightarrow> digit_val c < 10"
  by (auto simp add: is_digit_def digit_val_def)

lemma digit_char: "is_digit c \<Longrightarrow> char_of (48 + digit_val c) = c"
  by (simp add: is_digit_def digit_val_def)

lemma digit_char_eq:
  assumes "a < 10" and "is_digit c"
  shows "char_of (48 + a) = c \<longleftrightarrow> a = digit_val c"
proof
  assume eq: "char_of (48 + a) = c"
  have "of_char (char_of (48 + a) :: char) = (48 + a) mod 256"
    by (simp add: of_char_of)
  then have "(of_char c :: nat) = 48 + a"
    using assms(1) eq by simp
  then show "a = digit_val c"
    by (simp add: digit_val_def)
next
  assume "a = digit_val c"
  then show "char_of (48 + a) = c"
    using assms(2) by (simp add: digit_char)
qed

lemma decimal_2: "decimal [a, b] = 10 * digit_val a + digit_val b"
  by (simp add: decimal_def)

lemma decimal_4:
  "decimal [a, b, c, d] = 10 * (10 * (10 * digit_val a + digit_val b) + digit_val c) + digit_val d"
  by (simp add: decimal_def)

lemma div_mod_10: "n div 10 = x \<and> n mod 10 = y \<longleftrightarrow> n = 10 * x + y" if "y < 10" for n x y :: nat
  using that by auto

lemma pad_2_eq:
  assumes "is_digit a" "is_digit b" "n < 100"
  shows "pad 2 n = [a, b] \<longleftrightarrow> n = decimal [a, b]"
proof -
  have "n div 10 < 10" "n mod 10 < 10"
    using assms(3) by simp_all
  then have "pad 2 n = [a, b] \<longleftrightarrow> n div 10 = digit_val a \<and> n mod 10 = digit_val b"
    using assms by (simp add: pad_2 digit_char_eq)
  also have "\<dots> \<longleftrightarrow> n = decimal [a, b]"
    unfolding decimal_2 by (rule div_mod_10 [OF digit_val_less [OF assms(2)]])
  finally show ?thesis .
qed

lemma decimal_2_less:
  assumes "is_digit a" "is_digit b"
  shows "decimal [a, b] < 100"
proof -
  have "digit_val a < 10" "digit_val b < 10"
    using assms by (simp_all add: digit_val_less)
  then show ?thesis
    unfolding decimal_2 by simp
qed

lemma pad_4_decimal:
  assumes "is_digit a" "is_digit b" "is_digit c" "is_digit d"
  shows "decimal [a, b, c, d] < 10000" and "pad 4 (decimal [a, b, c, d]) = [a, b, c, d]"
proof -
  define n3 where "n3 = 10 * digit_val a + digit_val b"
  define n2 where "n2 = 10 * n3 + digit_val c"
  define n where "n = 10 * n2 + digit_val d"
  have v: "digit_val a < 10" "digit_val b < 10" "digit_val c < 10" "digit_val d < 10"
    using assms by (simp_all add: digit_val_less)
  have n: "decimal [a, b, c, d] = n"
    by (simp add: decimal_def n_def n2_def n3_def)
  have e1: "n div 10 = n2 \<and> n mod 10 = digit_val d"
    using div_mod_10 [OF v(4), of n n2] by (simp add: n_def)
  have e2: "n2 div 10 = n3 \<and> n2 mod 10 = digit_val c"
    using div_mod_10 [OF v(3), of n2 n3] by (simp add: n2_def)
  have e3: "n3 div 10 = digit_val a \<and> n3 mod 10 = digit_val b"
    using div_mod_10 [OF v(2), of n3 "digit_val a"] by (simp add: n3_def)
  have "n3 < 100"
    using v by (simp add: n3_def)
  then have "n2 < 1000"
    using v by (simp add: n2_def)
  then have less: "n < 10000"
    using v by (simp add: n_def)
  then show "decimal [a, b, c, d] < 10000"
    by (simp add: n)
  show "pad 4 (decimal [a, b, c, d]) = [a, b, c, d]"
    unfolding n pad_4 [OF less] using assms by (simp add: e1 e2 e3 digit_char)
qed

lemma is_digit_0: "is_digit (CHR ''0'')"
  by (simp add: is_digit_def)

lemma decimal_zeros: "decimal ''00'' = 0" "decimal ''000'' = 0"
  by (simp_all add: decimal_def digit_val_def)

lemma Date_parse_midnight:
  assumes "list_all is_digit [y1, y2, y3, y4, m1, m2, d1, d2]"
  shows "Date_parse ([y1, y2, y3, y4, CHR ''-'', m1, m2, CHR ''-'', d1, d2] @ ''T00:00:00.000Z'')
           = (if int (decimal [m1, m2]) < 1 \<or> 12 < int (decimal [m1, m2])
                 \<or> int (decimal [d1, d2]) < 1 \<or> 31 < int (decimal [d1, d2])
              then None
              else TimeClip (MakeDate (MakeDay (int (decimal [y1, y2, y3, y4]))
                                               (int (decimal [m1, m2]) - 1)
                                               (int (decimal [d1, d2])))
                                      (MakeTime 0 0 0 0)))"
  using assms by (simp add: is_digit_0 decimal_zeros Let_def)

lemma DayFromYear_range:
  assumes "0 \<le> y" "y \<le> 9999"
  shows "- 719528 \<le> DayFromYear y" and "DayFromYear y \<le> 2932532"
proof -
  have "DayFromYear 0 \<le> DayFromYear y" "DayFromYear y \<le> DayFromYear 9999"
    using assms by (simp_all add: DayFromYear_mono)
  moreover have "DayFromYear 0 = - 719528" "DayFromYear 9999 = 2932532"
    by (simp_all add: DayFromYear_def)
  ultimately show "- 719528 \<le> DayFromYear y" and "DayFromYear y \<le> 2932532"
    by simp_all
qed

lemma TimeClip_in_range:
  assumes "0 \<le> y" "y \<le> 9999" "0 \<le> k" "k < DaysInYear y"
  shows "TimeClip ((DayFromYear y + k) * msPerDay) = Some ((DayFromYear y + k) * msPerDay)"
proof -
  have "k < 367"
    using assms(4) DaysInYear_le [of y] by simp
  then have "- 719528 \<le> DayFromYear y + k" "DayFromYear y + k \<le> 2932899"
    using DayFromYear_range [OF assms(1,2)] assms(3) by simp_all
  then show ?thesis
    by (simp add: TimeClip_def msPerDay_def abs_if)
qed

lemma days_in_month_le: "days_in_month y m \<le> 31"
  by (simp add: days_in_month_def)

lemma isValidDateString_None:
  "Date_parse (v @ ''T00:00:00.000Z'') = None \<Longrightarrow> \<not> isValidDateString v"
  by (simp add: isValidDateString_def)

lemma isValidDateString_Some:
  "date_pattern v \<Longrightarrow> Date_parse (v @ ''T00:00:00.000Z'') = Some t \<Longrightarrow>
     isValidDateString v \<longleftrightarrow> take 10 (toISOString t) = v"
  by (simp add: isValidDateString_def)

lemma valid_date_digits:
  assumes dg: "list_all is_digit [y1, y2, y3, y4, m1, m2, d1, d2]"
  shows "isValidDateString [y1, y2, y3, y4, CHR ''-'', m1, m2, CHR ''-'', d1, d2] \<longleftrightarrow>
           1 \<le> decimal [m1, m2] \<and> decimal [m1, m2] \<le> 12 \<and> 1 \<le> decimal [d1, d2]
           \<and> int (decimal [d1, d2])
               \<le> days_in_month (int (decimal [y1, y2, y3, y4])) (int (decimal [m1, m2]))"
proof -
  define y where "y = int (decimal [y1, y2, y3, y4])"
  define m where "m = int (decimal [m1, m2])"
  define d where "d = int (decimal [d1, d2])"
  let ?v = "[y1, y2, y3, y4, CHR ''-'', m1, m2, CHR ''-'', d1, d2]"
  have digits: "is_digit y1" "is_digit y2" "is_digit y3" "is_digit y4"
    "is_digit m1" "is_digit m2" "is_digit d1" "is_digit d2"
    using dg by simp_all
  have pat: "date_pattern ?v"
    using dg by simp
  have parse: "Date_parse (?v @ ''T00:00:00.000Z'')
                 = (if m < 1 \<or> 12 < m \<or> d < 1 \<or> 31 < d then None
                    else TimeClip (MakeDate (MakeDay y (m - 1) d) (MakeTime 0 0 0 0)))"
    unfolding y_def m_def d_def by (rule Date_parse_midnight [OF dg])
  show ?thesis
  proof (cases "1 \<le> m \<and> m \<le> 12 \<and> 1 \<le> d \<and> d \<le> 31")
    case False
    then have "Date_parse (?v @ ''T00:00:00.000Z'') = None"
      unfolding parse by auto
    then have "\<not> isValidDateString ?v"
      by (rule isValidDateString_None)
    moreover have "\<not> (1 \<le> m \<and> m \<le> 12 \<and> 1 \<le> d \<and> d \<le> days_in_month y m)"
      using False days_in_month_le [of y m] by auto
    ultimately show ?thesis
      by (simp add: y_def m_def d_def)
  next
    case True
    then have r: "1 \<le> m" "m \<le> 12" "1 \<le> d" "d \<le> 31"
      by simp_all
    define t where "t = MakeDate (MakeDay y (m - 1) d) (MakeTime 0 0 0 0)"
    have y: "0 \<le> y" "y \<le> 9999" "nat y = decimal [y1, y2, y3, y4]"
      using pad_4_decimal(1) [OF digits(1-4)] by (simp_all add: y_def)
    have tk: "t = (DayFromYear y
                   + (month_start (if DaysInYear y = 366 then 1 else 0) (m - 1) + d - 1))
                  * msPerDay"
      by (simp add: t_def MakeDate_def MakeTime_def MakeDay_in_year [OF r(1,2)])
    have "TimeClip t = Some t"
      unfolding tk by (rule TimeClip_in_range [OF y(1,2) day_in_year_bounds [OF r]])
    then have p: "Date_parse (?v @ ''T00:00:00.000Z'') = Some t"
      unfolding parse using r by (simp add: t_def)
    have rt: "YearFromTime t = y" "TimeWithinDay t = 0"
      "0 \<le> MonthFromTime t" "MonthFromTime t \<le> 11"
      "1 \<le> DateFromTime t" "DateFromTime t \<le> 31"
      "MonthFromTime t + 1 = m \<and> DateFromTime t = d \<longleftrightarrow> d \<le> days_in_month y m"
      unfolding t_def by (rule calendar_round_trip [OF r])+
    have mm: "nat (MonthFromTime t + 1) < 100" and dd: "nat (DateFromTime t) < 100"
      using rt(3-6) by simp_all
    have year: "pad 4 (nat y) = [y1, y2, y3, y4]"
      unfolding y(3) by (rule pad_4_decimal(2) [OF digits(1-4)])
    have "take 10 (toISOString t)
            = [y1, y2, y3, y4] @ ''-'' @ pad 2 (nat (MonthFromTime t + 1)) @ ''-''
              @ pad 2 (nat (DateFromTime t))"
      using y(1,2) by (simp add: toISOString_def Let_def rt(1) year pad_2 [OF mm]
          pad_2 [OF dd])
    then have "take 10 (toISOString t) = ?v \<longleftrightarrow>
                 pad 2 (nat (MonthFromTime t + 1)) = [m1, m2]
                 \<and> pad 2 (nat (DateFromTime t)) = [d1, d2]"
      by (simp add: pad_2 [OF mm] pad_2 [OF dd])
    also have "\<dots> \<longleftrightarrow> nat (MonthFromTime t + 1) = decimal [m1, m2]
                      \<and> nat (DateFromTime t) = decimal [d1, d2]"
      by (simp add: pad_2_eq [OF digits(5,6) mm] pad_2_eq [OF digits(7,8) dd])
    also have "\<dots> \<longleftrightarrow> MonthFromTime t + 1 = m \<and> DateFromTime t = d"
      using rt(3,5) by (auto simp add: m_def d_def)
    also have "\<dots> \<longleftrightarrow> d \<le> days_in_month y m"
      by (rule rt(7))
    finally have "isValidDateString ?v \<longleftrightarrow> d \<le> days_in_month y m"
      unfolding isValidDateString_Some [OF pat p] .
    then show ?thesis
      using r by (simp add: y_def m_def d_def)
  qed
qed

lemma isValidDateString_calendar:
  "isValidDateString v \<longleftrightarrow>
     (\<exists>y1 y2 y3 y4 m1 m2 d1 d2.
        v = [y1, y2, y3, y4, CHR ''-'', m1, m2, CHR ''-'', d1, d2]
        \<and> list_all is_digit [y1, y2, y3, y4, m1, m2, d1, d2]
        \<and> 1 \<le> decimal [m1, m2] \<and> decimal [m1, m2] \<le> 12 \<and> 1 \<le> decimal [d1, d2]
        \<and> int (decimal [d1, d2])
            \<le> days_in_month (int (decimal [y1, y2, y3, y4])) (int (decimal [m1, m2])))"
proof
  assume v: "isValidDateString v"
  then have "date_pattern v"
    by (simp add: isValidDateString_iff)
  then obtain y1 y2 y3 y4 m1 m2 d1 d2
    where eq: "v = [y1, y2, y3, y4, CHR ''-'', m1, m2, CHR ''-'', d1, d2]"
      and dg: "list_all is_digit [y1, y2, y3, y4, m1, m2, d1, d2]"
    unfolding date_pattern_iff by blast
  from v show "\<exists>y1 y2 y3 y4 m1 m2 d1 d2.
        v = [y1, y2, y3, y4, CHR ''-'', m1, m2, CHR ''-'', d1, d2]
        \<and> list_all is_digit [y1, y2, y3, y4, m1, m2, d1, d2]
        \<and> 1 \<le> decimal [m1, m2] \<and> decimal [m1, m2] \<le> 12 \<and> 1 \<le> decimal [d1, d2]
        \<and> int (decimal [d1, d2])
            \<le> days_in_month (int (decimal [y1, y2, y3, y4])) (int (decimal [m1, m2]))"
    unfolding eq valid_date_digits [OF dg] using dg by blast
next
  assume "\<exists>y1 y2 y3 y4 m1 m2 d1 d2.
        v = [y1, y2, y3, y4, CHR ''-'', m1, m2, CHR ''-'', d1, d2]
        \<and> list_all is_digit [y1, y2, y3, y4, m1, m2, d1, d2]
        \<and> 1 \<le> decimal [m1, m2] \<and> decimal [m1, m2] \<le> 12 \<and> 1 \<le> decimal [d1, d2]
        \<and> int (decimal [d1, d2])
            \<le> days_in_month (int (decimal [y1, y2, y3, y4])) (int (decimal [m1, m2]))"
  then obtain y1 y2 y3 y4 m1 m2 d1 d2
    where eq: "v = [y1, y2, y3, y4, CHR ''-'', m1, m2, CHR ''-'', d1, d2]"
      and dg: "list_all is_digit [y1, y2, y3, y4, m1, m2, d1, d2]"
      and cal: "1 \<le> decimal [m1, m2] \<and> decimal [m1, m2] \<le> 12 \<and> 1 \<le> decimal [d1, d2]
                \<and> int (decimal [d1, d2])
                    \<le> days_in_month (int (decimal [y1, y2, y3, y4])) (int (decimal [m1, m2]))"
    by blast
  show "isValidDateString v"
    unfolding eq valid_date_digits [OF dg] by (rule cal)
qed

text \<open>
  Claim C7. The date validator accepts a string if and only if it matches
  \<^verbatim>\<open>^\d{4}-\d{2}-\d{2}$\<close> (four digits, a hyphen, two digits, a hyphen, two digits, and
  nothing else), parsing it as midnight UTC of that date gives a time value, and the first
  ten characters of that time value's ISO form are the string itself. In particular
  \<^verbatim>\<open>2023-02-30\<close> is invalid, \<^verbatim>\<open>2023-13-01\<close> is invalid, \<^verbatim>\<open>2023-03-15\<close> is valid and
  the empty string is invalid.
\<close>

theorem date_validity_rule:
  "(isValidDateString v \<longleftrightarrow>
      (\<exists>y1 y2 y3 y4 m1 m2 d1 d2.
         v = [y1, y2, y3, y4, CHR ''-'', m1, m2, CHR ''-'', d1, d2]
         \<and> list_all is_digit [y1, y2, y3, y4, m1, m2, d1, d2])
      \<and> (\<exists>t. Date_parse (v @ ''T00:00:00.000Z'') = Some t \<and> take 10 (toISOString t) = v))
   \<and> \<not> isValidDateString ''2023-02-30''
   \<and> \<not> isValidDateString ''2023-13-01''
   \<and> isValidDateString ''2023-03-15''
   \<and> \<not> isValidDateString ''''"
proof (intro conjI)
  show "isValidDateString v \<longleftrightarrow>
      (\<exists>y1 y2 y3 y4 m1 m2 d1 d2.
         v = [y1, y2, y3, y4, CHR ''-'', m1, m2, CHR ''-'', d1, d2]
         \<and> list_all is_digit [y1, y2, y3, y4, m1, m2, d1, d2])
      \<and> (\<exists>t. Date_parse (v @ ''T00:00:00.000Z'') = Some t \<and> take 10 (toISOString t) = v)"
    unfolding isValidDateString_iff date_pattern_iff by (rule refl)
  show "\<not> isValidDateString ''2023-02-30''"
    by (rule invalid_2023_02_30)
  show "\<not> isValidDateString ''2023-13-01''"
    by (rule invalid_2023_13_01)
  show "isValidDateString ''2023-03-15''"
    by (rule valid_2023_03_15)
  show "\<not> isValidDateString ''''"
    by (rule isValidDateString_empty)
qed

text \<open>
  For \<^verbatim>\<open>2024-02-29\<close>: it has the form, it parses to the time value 1709164800000, and the
  ISO form of that value starts with it.
\<close>

theorem date_validity_rule_witness:
  "isValidDateString ''2024-02-29''
   \<and> Date_parse (''2024-02-29'' @ ''T00:00:00.000Z'') = Some 1709164800000
   \<and> take 10 (toISOString 1709164800000) = ''2024-02-29''"
proof (intro conjI)
  show parse: "Date_parse (''2024-02-29'' @ ''T00:00:00.000Z'') = Some 1709164800000"
    by code_simp
  show iso: "take 10 (toISOString 1709164800000) = ''2024-02-29''"
    by code_simp
  have "list_all is_digit
          [CHR ''2'', CHR ''0'', CHR ''2'', CHR ''4'', CHR ''0'', CHR ''2'', CHR ''2'', CHR ''9'']"
    by code_simp
  then show "isValidDateString ''2024-02-29''"
    using date_validity_rule [where v = "''2024-02-29''"] parse iso
    by blast
qed

text \<open>
  Claim C8. The answer to \<^verbatim>\<open>GET /analytics/orders/daily-summary\<close> is 400 with the error
  \<^verbatim>\<open>Invalid or missing date query parameter\<close> exactly when \<^verbatim>\<open>date\<close> is not given and
  valid, and otherwise 200 with the stub body that repeats the date. The answer to
  \<^verbatim>\<open>GET /analytics/orders/trend\<close> is 400 with the error \<^verbatim>\<open>Invalid query parameters\<close>
  exactly when \<^verbatim>\<open>from\<close>, \<^verbatim>\<open>to\<close> or \<^verbatim>\<open>interval\<close> is not given and valid or \<^verbatim>\<open>from\<close> is
  greater than \<^verbatim>\<open>to\<close> in the lexicographic order, and otherwise 200 with \<^verbatim>\<open>from\<close>,
  \<^verbatim>\<open>to\<close> and \<^verbatim>\<open>interval\<close> repeated.
\<close>

theorem summary_and_trend_responses:
  "(daily_summary q
      = \<lparr>http_status = 400,
         json_body = JObject [(''error'',
                               JString ''Invalid or missing date query parameter'')]\<rparr>
    \<longleftrightarrow> \<not> date_param_valid q ''date'')
   \<and> (date_param_valid q ''date'' \<and> q ''date'' = Some (QString d)
      \<longrightarrow> daily_summary q
          = \<lparr>http_status = 200,
             json_body = JObject [(''date'', JString d),
                                  (''totalOrders'', JNumber ''125''),
                                  (''grossRevenue'', JNumber ''15675.5''),
                                  (''avgOrderValue'', JNumber ''125.4'')]\<rparr>)
   \<and> (trend q
        = \<lparr>http_status = 400,
           json_body = JObject [(''error'', JString ''Invalid query parameters'')]\<rparr>
      \<longleftrightarrow> \<not> date_param_valid q ''from'' \<or> \<not> date_param_valid q ''to''
          \<or> \<not> interval_param_valid q
          \<or> (string_or_empty (q ''to''), string_or_empty (q ''from'')) \<in> lexord unit_less)
   \<and> (date_param_valid q ''from'' \<and> date_param_valid q ''to'' \<and> interval_param_valid q
        \<and> (string_or_empty (q ''to''), string_or_empty (q ''from'')) \<notin> lexord unit_less
        \<and> q ''from'' = Some (QString f) \<and> q ''to'' = Some (QString t)
        \<and> q ''interval'' = Some (QString i)
      \<longrightarrow> trend q
          = \<lparr>http_status = 200,
             json_body =
               JObject [(''from'', JString f), (''to'', JString t), (''interval'', JString i),
                        (''points'',
                         JArray [JObject [(''bucketStart'', JString f),
                                          (''totalOrders'', JNumber ''120''),
                                          (''grossRevenue'', JNumber ''15400.25'')]])]\<rparr>)"
proof (intro conjI impI)
  show "daily_summary q
      = \<lparr>http_status = 400,
         json_body = JObject [(''error'',
                               JString ''Invalid or missing date query parameter'')]\<rparr>
    \<longleftrightarrow> \<not> date_param_valid q ''date''"
    by (simp add: daily_summary_cases)
next
  assume "date_param_valid q ''date'' \<and> q ''date'' = Some (QString d)"
  then show "daily_summary q
          = \<lparr>http_status = 200,
             json_body = JObject [(''date'', JString d),
                                  (''totalOrders'', JNumber ''125''),
                                  (''grossRevenue'', JNumber ''15675.5''),
                                  (''avgOrderValue'', JNumber ''125.4'')]\<rparr>"
    by (simp add: daily_summary_cases string_or_empty_def)
next
  show "trend q
        = \<lparr>http_status = 400,
           json_body = JObject [(''error'', JString ''Invalid query parameters'')]\<rparr>
      \<longleftrightarrow> \<not> date_param_valid q ''from'' \<or> \<not> date_param_valid q ''to''
          \<or> \<not> interval_param_valid q
          \<or> (string_or_empty (q ''to''), string_or_empty (q ''from'')) \<in> lexord unit_less"
    by (auto simp add: trend_cases string_gt_lexord)
next
  assume "date_param_valid q ''from'' \<and> date_param_valid q ''to'' \<and> interval_param_valid q
        \<and> (string_or_empty (q ''to''), string_or_empty (q ''from'')) \<notin> lexord unit_less
        \<and> q ''from'' = Some (QString f) \<and> q ''to'' = Some (QString t)
        \<and> q ''interval'' = Some (QString i)"
  then show "trend q
          = \<lparr>http_status = 200,
             json_body =
               JObject [(''from'', JString f), (''to'', JString t), (''interval'', JString i),
                        (''points'',
                         JArray [JObject [(''bucketStart'', JString f),
                                          (''totalOrders'', JNumber ''120''),
                                          (''grossRevenue'', JNumber ''15400.25'')]])]\<rparr>"
    by (auto simp add: trend_cases string_gt_lexord string_or_empty_def)
qed

lemma query_date_valid: "isValidDateString d \<Longrightarrow> date_param_valid (query_date d) ''date''"
  by (simp add: date_param_valid_def query_date_def)

lemma query_date_invalid:
  "\<not> isValidDateString d \<Longrightarrow> \<not> date_param_valid (query_date d) ''date''"
  by (simp add: date_param_valid_def query_date_def)

lemma query_trend_valid:
  "date_param_valid (query_trend f t i) ''from'' = isValidDateString f"
  "date_param_valid (query_trend f t i) ''to'' = isValidDateString t"
  "interval_param_valid (query_trend f t i) = (i = ''DAY'' \<or> i = ''WEEK'' \<or> i = ''MONTH'')"
  "query_trend f t i ''from'' = Some (QString f)"
  "query_trend f t i ''to'' = Some (QString t)"
  "query_trend f t i ''interval'' = Some (QString i)"
  by (simp_all add: date_param_valid_def interval_param_valid_def query_trend_def)

text \<open>
  The requests of the specification's examples: a valid date and 30 February for the
  summary; for the trend, 1 to 10 March by WEEK, the same by HOUR, and 10 to 1 March by
  DAY.
\<close>

theorem summary_and_trend_responses_witness:
  "daily_summary (query_date ''2023-03-15'')
     = \<lparr>http_status = 200,
        json_body = JObject [(''date'', JString ''2023-03-15''),
                             (''totalOrders'', JNumber ''125''),
                             (''grossRevenue'', JNumber ''15675.5''),
                             (''avgOrderValue'', JNumber ''125.4'')]\<rparr>
   \<and> daily_summary (query_date ''2023-02-30'')
     = \<lparr>http_status = 400,
        json_body = JObject [(''error'',
                              JString ''Invalid or missing date query parameter'')]\<rparr>
   \<and> trend (query_trend ''2023-03-01'' ''2023-03-10'' ''WEEK'')
     = \<lparr>http_status = 200,
        json_body =
          JObject [(''from'', JString ''2023-03-01''), (''to'', JString ''2023-03-10''),
                   (''interval'', JString ''WEEK''),
                   (''points'',
                    JArray [JObject [(''bucketStart'', JString ''2023-03-01''),
                                     (''totalOrders'', JNumber ''120''),
                                     (''grossRevenue'', JNumber ''15400.25'')]])]\<rparr>
   \<and> trend (query_trend ''2023-03-01'' ''2023-03-10'' ''HOUR'')
     = \<lparr>http_status = 400,
        json_body = JObject [(''error'', JString ''Invalid query parameters'')]\<rparr>
   \<and> trend (query_trend ''2023-03-10'' ''2023-03-01'' ''DAY'')
     = \<lparr>http_status = 400,
        json_body = JObject [(''error'', JString ''Invalid query parameters'')]\<rparr>"
proof (intro conjI)
  have ok: "date_param_valid (query_date ''2023-03-15'') ''date''"
    using valid_2023_03_15 by (rule query_date_valid)
  have d: "query_date ''2023-03-15'' ''date'' = Some (QString ''2023-03-15'')"
    by (simp add: query_date_def)
  show "daily_summary (query_date ''2023-03-15'')
     = \<lparr>http_status = 200,
        json_body = JObject [(''date'', JString ''2023-03-15''),
                             (''totalOrders'', JNumber ''125''),
                             (''grossRevenue'', JNumber ''15675.5''),
                             (''avgOrderValue'', JNumber ''125.4'')]\<rparr>"
    using summary_and_trend_responses
            [where q = "query_date ''2023-03-15''" and d = "''2023-03-15''"] ok d
    by blast
next
  have bad: "\<not> date_param_valid (query_date ''2023-02-30'') ''date''"
    using invalid_2023_02_30 by (rule query_date_invalid)
  show "daily_summary (query_date ''2023-02-30'')
     = \<lparr>http_status = 400,
        json_body = JObject [(''error'',
                              JString ''Invalid or missing date query parameter'')]\<rparr>"
    using summary_and_trend_responses [where q = "query_date ''2023-02-30''"] bad
    by blast
next
  have order: "(''2023-03-10'', ''2023-03-01'') \<notin> lexord unit_less"
    unfolding string_gt_lexord [symmetric] by code_simp
  show "trend (query_trend ''2023-03-01'' ''2023-03-10'' ''WEEK'')
     = \<lparr>http_status = 200,
        json_body =
          JObject [(''from'', JString ''2023-03-01''), (''to'', JString ''2023-03-10''),
                   (''interval'', JString ''WEEK''),
                   (''points'',
                    JArray [JObject [(''bucketStart'', JString ''2023-03-01''),
                                     (''totalOrders'', JNumber ''120''),
                                     (''grossRevenue'', JNumber ''15400.25'')]])]\<rparr>"
    using summary_and_trend_responses
            [where q = "query_trend ''2023-03-01'' ''2023-03-10'' ''WEEK''"
               and f = "''2023-03-01''" and t = "''2023-03-10''" and i = "''WEEK''"]
          valid_2023_03_01 valid_2023_03_10 order
    by (simp add: query_trend_valid string_or_empty_def)
next
  show "trend (query_trend ''2023-03-01'' ''2023-03-10'' ''HOUR'')
     = \<lparr>http_status = 400,
        json_body = JObject [(''error'', JString ''Invalid query parameters'')]\<rparr>"
    using summary_and_trend_responses
            [where q = "query_trend ''2023-03-01'' ''2023-03-10'' ''HOUR''"]
    by (simp add: query_trend_valid)
next
  have order: "(''2023-03-01'', ''2023-03-10'') \<in> lexord unit_less"
    unfolding string_gt_lexord [symmetric] by code_simp
  show "trend (query_trend ''2023-03-10'' ''2023-03-01'' ''DAY'')
     = \<lparr>http_status = 400,
        json_body = JObject [(''error'', JString ''Invalid query parameters'')]\<rparr>"
    using summary_and_trend_responses
            [where q = "query_trend ''2023-03-10'' ''2023-03-01'' ''DAY''"] order
    by (simp add: query_trend_valid string_or_empty_def)
qed

text \<open>
  Claim C10. When \<^verbatim>\<open>date\<close>, \<^verbatim>\<open>from\<close> or \<^verbatim>\<open>to\<close> is supplied with a value that is not a
  string (an array, for a parameter given twice, or a nested object), the handler that
  reads it treats it as missing: the daily summary, the trend and the tier distribution
  each answer 400 with their error body, never 200, and no handler has another outcome.
\<close>

theorem non_string_date_parameter_rejected:
  "(q ''date'' = Some x \<and> \<not> is_string_value x
    \<longrightarrow> daily_summary q
          = \<lparr>http_status = 400,
             json_body = JObject [(''error'',
                                   JString ''Invalid or missing date query parameter'')]\<rparr>
        \<and> tier_distribution q
          = \<lparr>http_status = 400,
             json_body = JObject [(''error'', JString ''Invalid query parameters'')]\<rparr>)
   \<and> ((q ''from'' = Some x \<or> q ''to'' = Some x) \<and> \<not> is_string_value x
      \<longrightarrow> trend q
          = \<lparr>http_status = 400,
             json_body = JObject [(''error'', JString ''Invalid query parameters'')]\<rparr>)"
proof (intro conjI impI)
  assume h: "q ''date'' = Some x \<and> \<not> is_string_value x"
  then have "\<not> date_param_valid q ''date''"
    using not_string_param [of q "''date''" x] by simp
  then show "daily_summary q
          = \<lparr>http_status = 400,
             json_body = JObject [(''error'',
                                   JString ''Invalid or missing date query parameter'')]\<rparr>"
    and "tier_distribution q
          = \<lparr>http_status = 400,
             json_body = JObject [(''error'', JString ''Invalid query parameters'')]\<rparr>"
    by (simp_all add: daily_summary_cases tier_distribution_cases)
next
  assume h: "(q ''from'' = Some x \<or> q ''to'' = Some x) \<and> \<not> is_string_value x"
  then have "\<not> date_param_valid q ''from'' \<or> \<not> date_param_valid q ''to''"
    using not_string_param [of q "''from''" x] not_string_param [of q "''to''" x] by blast
  then show "trend q
          = \<lparr>http_status = 400,
             json_body = JObject [(''error'', JString ''Invalid query parameters'')]\<rparr>"
    by (auto simp add: trend_cases)
qed

text \<open>
  A \<^verbatim>\<open>date\<close> given twice, both times a valid date, and a \<^verbatim>\<open>from\<close> given twice beside a
  valid \<^verbatim>\<open>to\<close> and interval.
\<close>

theorem non_string_date_parameter_rejected_witness:
  "http_status (daily_summary query_date_twice) = 400
   \<and> http_status (tier_distribution query_date_twice) = 400
   \<and> http_status (trend query_trend_from_twice) = 400"
proof -
  have a: "query_date_twice ''date''
             = Some (QArray [QString ''2023-03-15'', QString ''2023-03-16''])"
    by (simp add: query_date_twice_def)
  have b: "query_trend_from_twice ''from''
             = Some (QArray [QString ''2023-03-01'', QString ''2023-03-02''])"
    by (simp add: query_trend_from_twice_def)
  have "http_status (daily_summary query_date_twice) = 400"
    and "http_status (tier_distribution query_date_twice) = 400"
    using non_string_date_parameter_rejected
            [where q = query_date_twice
               and x = "QArray [QString ''2023-03-15'', QString ''2023-03-16'']"] a
    by simp_all
  moreover have "http_status (trend query_trend_from_twice) = 400"
    using non_string_date_parameter_rejected
            [where q = query_trend_from_twice
               and x = "QArray [QString ''2023-03-01'', QString ''2023-03-02'']"] b
    by simp
  ultimately show ?thesis
    by simp
qed

end
